theory Spec2Isabelle
  imports Main
begin

section \<open>wx.tools.img2py: embedding an image in a Python module\<close>

text \<open>
  A shallow embedding of \<^verbatim>\<open>wx/tools/img2py.py\<close>. The source is Python 3. A \<^verbatim>\<open>bytes\<close>
  value is a \<open>string\<close>, a list of 8-bit characters. A \<^verbatim>\<open>str\<close> is a \<open>string\<close> too, the
  character \<open>char_of n\<close> standing for the code point \<open>n\<close>: the model covers the text whose
  code points are below U+0100, with the character classes Unicode gives these code points.
  What depends on the interpreter and on the file system beyond that (upper-casing, the
  encoding of text files, two paths naming one file) is a component of the \<open>world\<close>. An
  exception is a value of \<open>error\<close>, and a function that can raise returns \<open>error + 'a\<close>.
\<close>

subsection \<open>Exceptions\<close>

datatype error =
    IndexError
  | TypeError
  | FileNotFoundError
  | UnicodeDecodeError
  | CodecError string

subsection \<open>Characters and string methods\<close>

definition sq :: char where
  \<comment> \<open>the single quote\<close>
  "sq = CHR 0x27"

definition LF :: char where
  "LF = CHR 0x0A"

definition CR :: char where
  "CR = CHR 0x0D"

definition isupper_ch :: "char \<Rightarrow> bool" where
  "isupper_ch c = (65 \<le> (of_char c :: nat) \<and> (of_char c :: nat) \<le> 90)"

definition islower_ch :: "char \<Rightarrow> bool" where
  "islower_ch c = (97 \<le> (of_char c :: nat) \<and> (of_char c :: nat) \<le> 122)"

definition isdigit_ch :: "char \<Rightarrow> bool" where
  "isdigit_ch c = (48 \<le> (of_char c :: nat) \<and> (of_char c :: nat) \<le> 57)"

text \<open>
  \<^verbatim>\<open>str.isalpha\<close> and \<^verbatim>\<open>str.isalnum\<close> follow the Unicode general categories. Below U+0100
  the letters are those of ASCII, U+00AA, U+00B5, U+00BA and U+00C0 to U+00FF without the
  signs U+00D7 and U+00F7; the other alphanumerics are the ASCII digits, the superscripts
  U+00B2, U+00B3, U+00B9 and the fractions U+00BC to U+00BE.
\<close>

definition isalpha :: "char \<Rightarrow> bool" where
  \<comment> \<open>\<^verbatim>\<open>str.isalpha\<close> of a one-character string\<close>
  "isalpha c =
     (isupper_ch c \<or> islower_ch c \<or>
      (of_char c :: nat) \<in> {0xAA, 0xB5, 0xBA} \<or>
      (0xC0 \<le> (of_char c :: nat) \<and> (of_char c :: nat) \<le> 0xD6) \<or>
      (0xD8 \<le> (of_char c :: nat) \<and> (of_char c :: nat) \<le> 0xF6) \<or>
      (0xF8 \<le> (of_char c :: nat) \<and> (of_char c :: nat) \<le> 0xFF))"

definition isalnum :: "char \<Rightarrow> bool" where
  \<comment> \<open>\<^verbatim>\<open>str.isalnum\<close> of a one-character string\<close>
  "isalnum c =
     (isalpha c \<or> isdigit_ch c \<or>
      (of_char c :: nat) \<in> {0xB2, 0xB3, 0xB9, 0xBC, 0xBD, 0xBE})"

subsection \<open>Identifier sanitization\<close>

text \<open>
  \<^verbatim>\<open>
  def _replace_non_alphanumeric_with_underscore(imgName):
      letters = [letter if letter.isalnum() else '_' for letter in imgName]

      if not letters[0].isalpha() and letters[0] != '_':
          letters.insert(0, "_")
      varName = "".join(letters)
      return varName
  \<close>
  \<^verbatim>\<open>letters[0]\<close> raises IndexError when the name is empty. The function reads nothing of a
  character but the two classifications and whether it is the underscore, so it is first
  written for any type of characters \<open>'c\<close>, any two classifications \<open>alnum\<close> and \<open>alpha\<close> and
  any underscore \<open>us\<close>; the function of the source is the instance at the characters and
  classes above.
\<close>

definition replace_non_alphanumeric ::
  "('c \<Rightarrow> bool) \<Rightarrow> ('c \<Rightarrow> bool) \<Rightarrow> 'c \<Rightarrow> 'c list \<Rightarrow> error + 'c list" where
  "replace_non_alphanumeric alnum alpha us imgName =
     (let letters = map (\<lambda>letter. if alnum letter then letter else us) imgName
      in case letters of
           [] \<Rightarrow> Inl IndexError
         | l0 # _ \<Rightarrow>
             Inr (if \<not> alpha l0 \<and> l0 \<noteq> us then us # letters else letters))"

definition replace_non_alphanumeric_with_underscore :: "string \<Rightarrow> error + string" where
  "replace_non_alphanumeric_with_underscore imgName =
     replace_non_alphanumeric isalnum isalpha (CHR ''_'') imgName"

text \<open>The shape of a derived identifier, as the specification words it.\<close>

definition identifier_shape :: "('c \<Rightarrow> bool) \<Rightarrow> ('c \<Rightarrow> bool) \<Rightarrow> 'c \<Rightarrow> 'c list \<Rightarrow> bool" where
  "identifier_shape alnum alpha us v =
     (list_all (\<lambda>c. alnum c \<or> c = us) v \<and>
      (case v of [] \<Rightarrow> False | c # _ \<Rightarrow> alpha c \<or> c = us))"

definition valid_identifier :: "string \<Rightarrow> bool" where
  "valid_identifier v = identifier_shape isalnum isalpha (CHR ''_'') v"

subsection \<open>Base64 (\<^verbatim>\<open>base64.b64encode\<close>, \<^verbatim>\<open>base64.b64decode\<close>)\<close>

text \<open>
  The standard library's encoder, after RFC 4648: three bytes give four characters of the
  alphabet \<^verbatim>\<open>A-Z a-z 0-9 + /\<close>, and a final group of one or two bytes is padded with
  \<^verbatim>\<open>=\<close>. \<open>b64_char\<close> is the alphabet, \<open>b64_index\<close> its inverse.
\<close>

definition b64_char :: "nat \<Rightarrow> char" where
  "b64_char i =
     (if i < 26 then char_of (65 + i)
      else if i < 52 then char_of (71 + i)
      else if i < 62 then char_of (i - 4)
      else if i = 62 then CHR ''+''
      else CHR ''/'')"

fun b64encode :: "string \<Rightarrow> string" where
  "b64encode (a # b # c # rest) =
     (let x = of_char a; y = of_char b; z = of_char c
      in b64_char (x div 4) # b64_char (x mod 4 * 16 + y div 16) #
         b64_char (y mod 16 * 4 + z div 64) # b64_char (z mod 64) # b64encode rest)"
| "b64encode [a, b] =
     (let x = of_char a; y = of_char b
      in [b64_char (x div 4), b64_char (x mod 4 * 16 + y div 16),
          b64_char (y mod 16 * 4), CHR ''=''])"
| "b64encode [a] =
     (let x = of_char a
      in [b64_char (x div 4), b64_char (x mod 4 * 16), CHR ''='', CHR ''=''])"
| "b64encode [] = []"

definition b64_index :: "char \<Rightarrow> nat option" where
  "b64_index c =
     (if isupper_ch c then Some (of_char c - 65)
      else if islower_ch c then Some (of_char c - 71)
      else if isdigit_ch c then Some (of_char c + 4)
      else if c = CHR ''+'' then Some 62
      else if c = CHR ''/'' then Some 63
      else None)"

text \<open>The characters of base64 text: the alphabet and the padding character.\<close>

definition is_b64 :: "char \<Rightarrow> bool" where
  "is_b64 c = (case b64_index c of Some i \<Rightarrow> True | None \<Rightarrow> c = CHR ''='')"

fun b64_quads :: "string \<Rightarrow> string option" where
  "b64_quads [] = Some []"
| "b64_quads (c0 # c1 # c2 # c3 # rest) =
     (case (b64_index c0, b64_index c1) of
        (Some i0, Some i1) \<Rightarrow>
          (if c2 = CHR ''='' \<and> c3 = CHR ''='' then Some [char_of (i0 * 4 + i1 div 16)]
           else case b64_index c2 of
             None \<Rightarrow> None
           | Some i2 \<Rightarrow>
               (if c3 = CHR ''=''
                then Some [char_of (i0 * 4 + i1 div 16), char_of (i1 mod 16 * 16 + i2 div 4)]
                else case b64_index c3 of
                  None \<Rightarrow> None
                | Some i3 \<Rightarrow>
                    map_option (\<lambda>bs. char_of (i0 * 4 + i1 div 16) #
                                      char_of (i1 mod 16 * 16 + i2 div 4) #
                                      char_of (i2 mod 4 * 64 + i3) # bs)
                      (b64_quads rest)))
      | _ \<Rightarrow> None)"
| "b64_quads _ = None"

definition b64decode :: "string \<Rightarrow> string option" where
  "b64decode s = b64_quads (filter is_b64 s)"


subsection \<open>\<^verbatim>\<open>'%s' % part\<close>: the text of a bytes value\<close>

text \<open>
  In Python 3 \<^verbatim>\<open>b64encode\<close> returns \<^verbatim>\<open>bytes\<close>, and formatting bytes with \<^verbatim>\<open>%s\<close> gives
  their \<^verbatim>\<open>repr\<close>: the bytes literal \<^verbatim>\<open>b'...'\<close>, with the double quote chosen when the
  value holds a single quote and no double quote, and with backslash escapes.
\<close>

definition hexdigit :: "nat \<Rightarrow> char" where
  "hexdigit d = (if d < 10 then char_of (48 + d) else char_of (87 + d))"

definition repr_byte :: "char \<Rightarrow> char \<Rightarrow> string" where
  "repr_byte quote c =
     (if c = quote \<or> c = CHR 0x5C then [CHR 0x5C, c]
      else if c = CHR 0x09 then [CHR 0x5C, CHR ''t'']
      else if c = LF then [CHR 0x5C, CHR ''n'']
      else if c = CR then [CHR 0x5C, CHR ''r'']
      else if (of_char c :: nat) < 32 \<or> 127 \<le> (of_char c :: nat)
        then [CHR 0x5C, CHR ''x'', hexdigit (of_char c div 16), hexdigit (of_char c mod 16)]
      else [c])"

definition bytes_repr :: "string \<Rightarrow> string" where
  "bytes_repr bs =
     (let quote = (if sq \<in> set bs \<and> CHR 0x22 \<notin> set bs then CHR 0x22 else sq)
      in CHR ''b'' # quote # concat (map (repr_byte quote) bs) @ [quote])"

subsection \<open>The payload loop of \<^verbatim>\<open>img2py\<close>\<close>

text \<open>
  \<^verbatim>\<open>
  lines = []
  while data:
      part = data[:72]
      data = data[72:]
      output = '    %s' % part
      if not data:
          output += ")"
      lines.append(output)
  data = "\n".join(lines)
  \<close>
  The loop consumes 72 characters each round, so \<open>payload_lines\<close> terminates on the
  length of \<open>data\<close>.
\<close>

function payload_lines :: "string \<Rightarrow> string list \<Rightarrow> string list" where
  "payload_lines data lines =
     (if data \<noteq> [] then
        (let part = take 72 data;
             data' = drop 72 data;
             output = ''    '' @ bytes_repr part;
             output = (if data' = [] then output @ '')'' else output)
         in payload_lines data' (lines @ [output]))
      else lines)"
  by pat_completeness auto
termination
  by (relation "measure (\<lambda>(data, lines). length data)") auto

declare payload_lines.simps [simp del]

text \<open>\<^verbatim>\<open>sep.join(xs)\<close>\<close>

fun str_join :: "string \<Rightarrow> string list \<Rightarrow> string" where
  "str_join sep [] = []"
| "str_join sep [x] = x"
| "str_join sep (x # y # ys) = x @ sep @ str_join sep (y # ys)"

text \<open>The text computed from the bytes of the temporary file (lines 195 to 205).\<close>

definition encode_payload :: "string \<Rightarrow> string" where
  "encode_payload bytes = str_join [LF] (payload_lines (b64encode bytes) [])"

text \<open>The line one round of the loop appends.\<close>

definition payload_chunk :: "string \<Rightarrow> string" where
  "payload_chunk data =
     (let output = ''    '' @ bytes_repr (take 72 data)
      in if drop 72 data = [] then output @ '')'' else output)"

subsection \<open>Reading a payload back\<close>

text \<open>
  These definitions are not in the source: they spell out the round trip of the
  specification. \<open>split_on\<close> is \<^verbatim>\<open>str.split\<close> at one character; \<open>payload_base64_text\<close>
  splits a payload at the newlines that join its chunks, removes the terminator \<^verbatim>\<open>)\<close> from
  the final chunk and the four characters of indentation from every chunk, applies
  \<open>unwrap\<close> to what is left of each chunk, and concatenates. \<open>b64decode\<close> above is the
  decoder of the generated module (\<^verbatim>\<open>base64.b64decode\<close>, which skips characters outside
  the alphabet).
\<close>

fun split_on :: "char \<Rightarrow> string \<Rightarrow> string list" where
  "split_on sep [] = [[]]"
| "split_on sep (c # cs) =
     (if c = sep then [] # split_on sep cs
      else (case split_on sep cs of [] \<Rightarrow> [[c]] | l # ls \<Rightarrow> (c # l) # ls))"

definition payload_base64_text :: "(string \<Rightarrow> string) \<Rightarrow> string \<Rightarrow> string" where
  "payload_base64_text unwrap data =
     (let chunks = split_on LF data;
          chunks = butlast chunks @ [butlast (last chunks)]
      in concat (map (\<lambda>chunk. unwrap (drop 4 chunk)) chunks))"

text \<open>Removing the \<^verbatim>\<open>b'\<close> and \<^verbatim>\<open>'\<close> that enclose a bytes literal.\<close>

definition unquote_bytes_literal :: "string \<Rightarrow> string" where
  "unquote_bytes_literal s = butlast (drop 2 s)"


subsection \<open>String and path functions of the standard library\<close>

definition ascii_upper :: "string \<Rightarrow> string" where
  \<comment> \<open>what \<^verbatim>\<open>str.upper\<close> gives on ASCII text\<close>
  "ascii_upper s = map (\<lambda>c. if islower_ch c then char_of (of_char c - (32::nat)) else c) s"

definition endswith :: "string \<Rightarrow> string \<Rightarrow> bool" where
  \<comment> \<open>\<^verbatim>\<open>str.endswith\<close>\<close>
  "endswith s suffix =
     (length suffix \<le> length s \<and> drop (length s - length suffix) s = suffix)"

definition isspace :: "char \<Rightarrow> bool" where
  \<comment> \<open>the characters the pattern \<^verbatim>\<open>\s\<close> matches in a \<^verbatim>\<open>str\<close>: those of \<^verbatim>\<open>str.isspace\<close>,
      below U+0100 the ASCII ones, NEL (U+0085) and the no-break space (U+00A0)\<close>
  "isspace c =
     ((9 \<le> (of_char c :: nat) \<and> (of_char c :: nat) \<le> 13) \<or>
      (28 \<le> (of_char c :: nat) \<and> (of_char c :: nat) \<le> 32) \<or>
      (of_char c :: nat) \<in> {0x85, 0xA0})"

definition basename :: "string \<Rightarrow> string" where
  \<comment> \<open>\<^verbatim>\<open>posixpath.basename\<close>: what follows the last slash\<close>
  "basename p = rev (takeWhile (\<lambda>c. c \<noteq> CHR ''/'') (rev p))"

definition rstrip :: "char \<Rightarrow> string \<Rightarrow> string" where
  "rstrip ch s = rev (dropWhile (\<lambda>c. c = ch) (rev s))"

definition path_split :: "string \<Rightarrow> string \<times> string" where
  \<comment> \<open>\<^verbatim>\<open>posixpath.split\<close>\<close>
  "path_split p =
     (let tail = basename p;
          head = take (length p - length tail) p;
          head = (if head \<noteq> [] \<and> head \<noteq> replicate (length head) (CHR ''/'')
                  then rstrip (CHR ''/'') head else head)
      in (head, tail))"

definition splitext :: "string \<Rightarrow> string \<times> string" where
  \<comment> \<open>\<^verbatim>\<open>posixpath.splitext\<close>: the extension starts at the last dot of the base name,
      unless only dots precede it there\<close>
  "splitext p =
     (let name = basename p;
          ext = rev (takeWhile (\<lambda>c. c \<noteq> CHR ''.'') (rev name));
          stem = take (length name - length ext - 1) name
      in if CHR ''.'' \<in> set name \<and> list_ex (\<lambda>c. c \<noteq> CHR ''.'') stem
         then (take (length p - length ext - 1) p, CHR ''.'' # ext)
         else (p, []))"

definition path_join :: "string \<Rightarrow> string \<Rightarrow> string" where
  \<comment> \<open>\<^verbatim>\<open>posixpath.join\<close> of two components\<close>
  "path_join a b =
     (if b \<noteq> [] \<and> hd b = CHR ''/'' then b
      else if a = [] \<or> last a = CHR ''/'' then a @ b
      else a @ ''/'' @ b)"


subsection \<open>The world of one invocation\<close>

text \<open>
  The files (a path names a file, and a file is the sequence of its bytes), what has been
  printed on the standard output, and \<^verbatim>\<open>sys.argv[0]\<close>. Beside them, what the program takes
  from its environment:
  \<^item> \<open>str_upper\<close> is \<^verbatim>\<open>str.upper\<close>, which in Unicode can lengthen a text and leave the
    code points below U+0100;
  \<^item> \<open>same_file p q\<close> says that the paths \<open>p\<close> and \<open>q\<close>, different as texts, name one file
    (another spelling of the path, a link); the model asks where it matters to the result
    of a function, in \<^verbatim>\<open>convert\<close>, which empties its destination before it reads its source;
  \<^item> \<open>encode\<close> and \<open>decode\<close> are the encoding of text files, the locale's: \<open>encode\<close> gives
    the bytes of a text that is written, \<open>decode\<close> the text of the bytes that are read, or
    \<open>None\<close> when they are not a text in this encoding and reading raises UnicodeDecodeError.
  Writing text leaves \<^verbatim>\<open>\n\<close> as it is (the POSIX line separator); reading text translates
  \<^verbatim>\<open>\r\n\<close> and \<^verbatim>\<open>\r\<close> to \<^verbatim>\<open>\n\<close> (universal newlines, the default of \<^verbatim>\<open>open\<close>).
\<close>

record world =
  files :: "string \<rightharpoonup> string"
  stdout :: string
  argv0 :: string
  str_upper :: "string \<Rightarrow> string"
  same_file :: "string \<Rightarrow> string \<Rightarrow> bool"
  encode :: "string \<Rightarrow> string"
  decode :: "string \<Rightarrow> string option"

datatype target = Stdout | File string

definition py_print :: "string \<Rightarrow> world \<Rightarrow> world" where
  \<comment> \<open>\<^verbatim>\<open>print(s)\<close>\<close>
  "py_print s w = w\<lparr>stdout := stdout w @ s @ [LF]\<rparr>"

definition out_write :: "target \<Rightarrow> string \<Rightarrow> world \<Rightarrow> world" where
  \<comment> \<open>\<^verbatim>\<open>out.write(s)\<close> on the standard output or at the end of an open text file\<close>
  "out_write out s w =
     (case out of
        Stdout \<Rightarrow> w\<lparr>stdout := stdout w @ s\<rparr>
      | File p \<Rightarrow>
          w\<lparr>files := (files w)(p \<mapsto> (case files w p of
                                        None \<Rightarrow> encode w s
                                      | Some old \<Rightarrow> old @ encode w s))\<rparr>)"

fun universal_newlines :: "string \<Rightarrow> string" where
  "universal_newlines [] = []"
| "universal_newlines [c] = [if c = CR then LF else c]"
| "universal_newlines (c # d # cs) =
     (if c = CR then (if d = LF then LF # universal_newlines cs
                      else LF # universal_newlines (d # cs))
      else c # universal_newlines (d # cs))"

fun text_lines :: "string \<Rightarrow> string list" where
  \<comment> \<open>the lines of a text, each with its \<^verbatim>\<open>\n\<close>; a last line may lack it\<close>
  "text_lines [] = []"
| "text_lines (c # cs) =
     (if c = LF then [LF] # text_lines cs
      else (case text_lines cs of [] \<Rightarrow> [[c]] | l # ls \<Rightarrow> (c # l) # ls))"

definition readlines :: "string \<Rightarrow> string list" where
  \<comment> \<open>\<^verbatim>\<open>for line in f\<close> on a file opened with mode \<^verbatim>\<open>"r"\<close>, from the decoded text\<close>
  "readlines content = text_lines (universal_newlines content)"

subsection \<open>\<^verbatim>\<open>indexPattern\<close>\<close>

text \<open>
  \<^verbatim>\<open>indexPattern = re.compile(r"\s*index.append\('(.+)'\)\s*")\<close>, used with \<^verbatim>\<open>match\<close>: the
  pattern is anchored at the start of the line only. A dot matches every character but the
  newline, and \<^verbatim>\<open>.+\<close> is greedy: of all the non-empty runs without a newline that are followed
  by \<^verbatim>\<open>')\<close>, the group is the longest. \<open>greedy_group\<close> finds it.
\<close>

fun greedy_group :: "string \<Rightarrow> string option" where
  "greedy_group [] = None"
| "greedy_group (c # cs) =
     (if c = LF then None
      else (case greedy_group cs of
              Some g \<Rightarrow> Some (c # g)
            | None \<Rightarrow> (if take 2 cs = [sq, CHR '')''] then Some [c] else None)))"

definition indexPattern_match :: "string \<Rightarrow> string option" where
  \<comment> \<open>\<^verbatim>\<open>indexPattern.match(line)\<close>: None, or \<^verbatim>\<open>groups()[0]\<close> of the match\<close>
  "indexPattern_match line =
     (let s = dropWhile isspace line
      in if take 5 s = ''index'' \<and> 5 < length s \<and> s ! 5 \<noteq> LF \<and>
            take 8 (drop 6 s) = ''append('' @ [sq]
         then greedy_group (drop 14 s)
         else None)"

subsection \<open>\<^verbatim>\<open>convert\<close>\<close>

text \<open>
  Modelled from the spec: \<^verbatim>\<open>img2img.convert\<close>, the image codec, which is not among the
  sources. After section 6 of the specification it takes the source path, the override
  colour, the format tag and the destination path, and returns a success flag and a
  message; it leaves the canonical bytes at the destination. Here the codec is a parameter
  \<open>codec\<close>: from the files, the source path, the override colour and the format tag it
  gives an outcome, which is an exception, or the pair it returns with the bytes it stored
  at the destination (\<open>None\<close> when it stored nothing).
\<close>

datatype codec_outcome =
    CodecRaises error
  | CodecReturns bool string "string option"

type_synonym codec = "(string \<rightharpoonup> string) \<Rightarrow> string \<Rightarrow> string option \<Rightarrow> nat \<Rightarrow> codec_outcome"

text \<open>
  \<^verbatim>\<open>
  if outputName:
      newname = outputName
  else:
      newname = os.path.join(outputDir,
                             os.path.basename(os.path.splitext(fileName)[0]) + outExt)
  \<close>
  \<^verbatim>\<open>os.path.join\<close> raises TypeError on \<^verbatim>\<open>None\<close>.
\<close>

definition newname_of :: "string option \<Rightarrow> string \<Rightarrow> string \<Rightarrow> string \<Rightarrow> error + string" where
  "newname_of outputDir outputName fileName outExt =
     (if outputName \<noteq> [] then Inr outputName
      else (case outputDir of
              None \<Rightarrow> Inl TypeError
            | Some dir \<Rightarrow> Inr (path_join dir (basename (fst (splitext fileName)) @ outExt))))"

definition img2img_convert ::
  "codec \<Rightarrow> string \<Rightarrow> string option \<Rightarrow> string option \<Rightarrow> string \<Rightarrow> nat \<Rightarrow> string \<Rightarrow>
   world \<Rightarrow> (error + bool \<times> string) \<times> world" where
  "img2img_convert codec fileName maskClr outputDir outputName outType outExt w =
     (case codec (files w) fileName maskClr outType of
        CodecRaises e \<Rightarrow> (Inl e, w)
      | CodecReturns ok msg None \<Rightarrow> (Inr (ok, msg), w)
      | CodecReturns ok msg (Some bytes) \<Rightarrow>
          (case newname_of outputDir outputName fileName outExt of
             Inl e \<Rightarrow> (Inl e, w)
           | Inr newname \<Rightarrow> (Inr (ok, msg), w\<lparr>files := (files w)(newname \<mapsto> bytes)\<rparr>)))"

text \<open>
  \<^verbatim>\<open>
  def convert(fileName, maskClr, outputDir, outputName, outType, outExt):
      # if the file is already the right type then just use it directly
      if maskClr == DEFAULT_MASKCLR and fileName.upper().endswith(outExt.upper()):
          if outputName:
              newname = outputName
          else:
              newname = os.path.join(outputDir,
                                     os.path.basename(os.path.splitext(fileName)[0]) + outExt)
          with open(newname, "wb") as f_out:
              with open(fileName, "rb") as f_in:
                  f_out.write(f_in.read())
          return True, "ok"
      return img2img.convert(fileName, maskClr, outputDir, outputName, outType, outExt)
  \<close>
  Opening the destination for writing creates or empties it before the source is opened:
  when the destination is the source, under the same path or under another one, the source
  is empty when it is read.
\<close>

definition convert ::
  "codec \<Rightarrow> string \<Rightarrow> string option \<Rightarrow> string option \<Rightarrow> string \<Rightarrow> nat \<Rightarrow> string \<Rightarrow>
   world \<Rightarrow> (error + bool \<times> string) \<times> world" where
  "convert codec fileName maskClr outputDir outputName outType outExt w =
     (if maskClr = None \<and> endswith (str_upper w fileName) (str_upper w outExt) then
        (case newname_of outputDir outputName fileName outExt of
           Inl e \<Rightarrow> (Inl e, w)
         | Inr newname \<Rightarrow>
             (let w1 = (if same_file w newname fileName
                        then w\<lparr>files := (files w)(newname \<mapsto> [], fileName \<mapsto> [])\<rparr>
                        else w\<lparr>files := (files w)(newname \<mapsto> [])\<rparr>)
              in case files w1 fileName of
                   None \<Rightarrow> (Inl FileNotFoundError, w1)
                 | Some bytes \<Rightarrow>
                     (Inr (True, ''ok''), w1\<lparr>files := (files w1)(newname \<mapsto> bytes)\<rparr>)))
      else img2img_convert codec fileName maskClr outputDir outputName outType outExt w)"


subsection \<open>\<^verbatim>\<open>_write_image\<close>\<close>

text \<open>The strings the emitter writes, named after what they are.\<close>

definition separator_line :: string where
  \<comment> \<open>\<^verbatim>\<open>"#" + "-" * 70 + "\n"\<close>\<close>
  "separator_line = CHR ''#'' # replicate 70 (CHR ''-'') @ [LF]"

definition header_comment :: "string \<Rightarrow> string" where
  \<comment> \<open>\<^verbatim>\<open>"# This file was generated by %s\n#\n" % sys.argv[0]\<close>\<close>
  "header_comment prog = ''# This file was generated by '' @ prog @ [LF] @ ''#'' @ [LF]"

definition import_statement :: string where
  \<comment> \<open>\<^verbatim>\<open>"from wx.lib.embeddedimage import PyEmbeddedImage\n\n"\<close>\<close>
  "import_statement = ''from wx.lib.embeddedimage import PyEmbeddedImage'' @ [LF, LF]"

definition catalog_initializer :: string where
  \<comment> \<open>\<^verbatim>\<open>"catalog = {}\n"\<close>\<close>
  "catalog_initializer = ''catalog = {}'' @ [LF]"

definition index_initializer :: string where
  \<comment> \<open>\<^verbatim>\<open>"index = []\n\n"\<close>\<close>
  "index_initializer = ''index = []'' @ [LF, LF]"

definition assignment :: "string \<Rightarrow> string \<Rightarrow> string" where
  \<comment> \<open>\<^verbatim>\<open>"%s = PyEmbeddedImage(\n%s\n" % (varName, data)\<close>\<close>
  "assignment varName data = varName @ '' = PyEmbeddedImage('' @ [LF] @ data @ [LF]"

definition index_append :: "string \<Rightarrow> string" where
  \<comment> \<open>\<^verbatim>\<open>"index.append('%s')\n" % imgName\<close>\<close>
  "index_append imgName = ''index.append('' @ [sq] @ imgName @ [sq] @ '')'' @ [LF]"

definition catalog_registration :: "string \<Rightarrow> string \<Rightarrow> string" where
  \<comment> \<open>\<^verbatim>\<open>"catalog['%s'] = %s\n" % (imgName, varName)\<close>\<close>
  "catalog_registration imgName varName =
     ''catalog['' @ [sq] @ imgName @ [sq] @ ''] = '' @ varName @ [LF]"

definition accessor :: "string \<Rightarrow> string \<Rightarrow> string" where
  \<comment> \<open>\<^verbatim>\<open>"get%sData = %s.GetData\n" % (varName, varName)\<close>, and the like\<close>
  "accessor what varName =
     ''get'' @ varName @ what @ '' = '' @ varName @ ''.Get'' @ what @ [LF]"

text \<open>
  \<^verbatim>\<open>
  def _write_image(out, imgName, data, append, icon, catalog, functionCompatible, old_index):
      out.write("#" + "-" * 70 + "\n")
      if not append:
          out.write("# This file was generated by %s\n#\n" % sys.argv[0])
          out.write("from wx.lib.embeddedimage import PyEmbeddedImage\n\n")
          if catalog:
              out.write("catalog = {}\n")
              out.write("index = []\n\n")
      varName = _replace_non_alphanumeric_with_underscore(imgName)
      out.write("%s = PyEmbeddedImage(\n%s\n" % (varName, data))
      if catalog:
          if imgName in old_index:
              print("Warning: %s already in catalog." % imgName)
              print("         Only the last entry will be accessible.\n")
          old_index.append(imgName)
          out.write("index.append('%s')\n" % imgName)
          out.write("catalog['%s'] = %s\n" % (imgName, varName))
      if functionCompatible:
          out.write("get%sData = %s.GetData\n" % (varName, varName))
          out.write("get%sImage = %s.GetImage\n" % (varName, varName))
          out.write("get%sBitmap = %s.GetBitmap\n" % (varName, varName))
          if icon:
              out.write("get%sIcon = %s.GetIcon\n" % (varName, varName))
      out.write("\n")
  \<close>
  The function returns nothing; the model returns the list \<^verbatim>\<open>old_index\<close> as the call leaves
  it, or the exception, and the world in both cases: what was written before an exception
  stays written.
\<close>

definition write_image ::
  "target \<Rightarrow> string \<Rightarrow> string \<Rightarrow> bool \<Rightarrow> bool \<Rightarrow> bool \<Rightarrow> bool \<Rightarrow> string list \<Rightarrow> world \<Rightarrow>
   (error + string list) \<times> world" where
  "write_image out imgName data append' icon catalog functionCompatible old_index w =
     (let w = out_write out separator_line w;
          w = (if \<not> append' then
                 (let w = out_write out (header_comment (argv0 w)) w;
                      w = out_write out import_statement w
                  in if catalog then
                       (let w = out_write out catalog_initializer w
                        in out_write out index_initializer w)
                     else w)
               else w)
      in case replace_non_alphanumeric_with_underscore imgName of
           Inl e \<Rightarrow> (Inl e, w)
         | Inr varName \<Rightarrow>
             (let w = out_write out (assignment varName data) w;
                  (old_index, w) =
                    (if catalog then
                       (let w = (if imgName \<in> set old_index then
                                   (let w = py_print (''Warning: '' @ imgName @ '' already in catalog.'') w
                                    in py_print (''         Only the last entry will be accessible.'' @ [LF]) w)
                                 else w);
                            old_index = old_index @ [imgName];
                            w = out_write out (index_append imgName) w;
                            w = out_write out (catalog_registration imgName varName) w
                        in (old_index, w))
                     else (old_index, w));
                  w = (if functionCompatible then
                         (let w = out_write out (accessor ''Data'' varName) w;
                              w = out_write out (accessor ''Image'' varName) w;
                              w = out_write out (accessor ''Bitmap'' varName) w
                          in if icon then out_write out (accessor ''Icon'' varName) w else w)
                       else w);
                  w = out_write out [LF] w
              in (Inr old_index, w)))"

subsection \<open>\<^verbatim>\<open>img2py\<close>\<close>

definition BITMAP_TYPE_PNG :: nat where
  \<comment> \<open>\<^verbatim>\<open>wx.BITMAP_TYPE_PNG\<close>, a format tag that only the codec reads\<close>
  "BITMAP_TYPE_PNG = 15"

text \<open>
  Lines 186 to 208: the temporary file, the conversion, the payload, and the cleanup.
  \<^verbatim>\<open>
  with tempfile.NamedTemporaryFile(delete=False) as fid:
      tfname = fid.name
  try:
      ok, msg = convert(image_file, maskClr, None, tfname, wx.BITMAP_TYPE_PNG, ".png")
      if not ok:
          print(msg)
          return
      lines = []
      with open(tfname, "rb") as fid:
          data = b64encode(fid.read())
      ...
  finally:
      if os.path.exists(tfname):
          os.remove(tfname)
  \<close>
  \<open>tfname\<close> is the name \<^verbatim>\<open>NamedTemporaryFile\<close> chose. The result is an exception, or
  \<open>None\<close> when \<^verbatim>\<open>img2py\<close> returned after the codec's message, or the payload.
\<close>

definition convert_and_encode ::
  "codec \<Rightarrow> string \<Rightarrow> string \<Rightarrow> string option \<Rightarrow> world \<Rightarrow> (error + string option) \<times> world" where
  "convert_and_encode codec tfname image_file maskClr w =
     (let w = w\<lparr>files := (files w)(tfname \<mapsto> [])\<rparr>;
          (r, w) = convert codec image_file maskClr None tfname BITMAP_TYPE_PNG ''.png'' w;
          (r, w) =
            (case r of
               Inl e \<Rightarrow> (Inl e, w)
             | Inr (ok, msg) \<Rightarrow>
                 (if \<not> ok then (Inr None, py_print msg w)
                  else (case files w tfname of
                          None \<Rightarrow> (Inl FileNotFoundError, w)
                        | Some bytes \<Rightarrow> (Inr (Some (encode_payload bytes)), w))))
      in (r, w\<lparr>files := (files w)(tfname := None)\<rparr>))"

text \<open>
  Lines 210 to 231: reading the artifact back.
  \<^verbatim>\<open>
  old_index = []
  if catalog and append and python_file != '-':
      append_catalog = True
      with open(python_file, "r") as sourcePy:
          for line in sourcePy:
              if line == "catalog = {}\n":
                  append_catalog = False
              else:
                  lineMatcher = indexPattern.match(line)
                  if lineMatcher:
                      old_index.append(lineMatcher.groups()[0])
      if append_catalog:
          with open(python_file, "a") as out:
              out.write("\n# ***************** Catalog starts here *******************")
              out.write("\n\ncatalog = {}\n")
              out.write("index = []\n\n")
  \<close>
  Opening a file that does not exist for reading raises FileNotFoundError, and reading
  bytes that are no text in the file's encoding raises UnicodeDecodeError; nothing has been
  written by then.
\<close>

definition scan_line :: "bool \<times> string list \<Rightarrow> string \<Rightarrow> bool \<times> string list" where
  "scan_line st line =
     (case st of (append_catalog, old_index) \<Rightarrow>
        if line = catalog_initializer then (False, old_index)
        else (case indexPattern_match line of
                None \<Rightarrow> (append_catalog, old_index)
              | Some name \<Rightarrow> (append_catalog, old_index @ [name])))"

definition scan_artifact :: "string \<Rightarrow> bool \<times> string list" where
  "scan_artifact content = foldl scan_line (True, []) (readlines content)"

definition catalog_banner :: string where
  "catalog_banner = LF # ''# ***************** Catalog starts here *******************''"

definition reconcile_catalog ::
  "string \<Rightarrow> bool \<Rightarrow> bool \<Rightarrow> world \<Rightarrow> (error + string list) \<times> world" where
  "reconcile_catalog python_file append' catalog w =
     (if catalog \<and> append' \<and> python_file \<noteq> ''-'' then
        (case files w python_file of
           None \<Rightarrow> (Inl FileNotFoundError, w)
         | Some bytes \<Rightarrow>
             (case decode w bytes of
                None \<Rightarrow> (Inl UnicodeDecodeError, w)
              | Some content \<Rightarrow>
                  (let (append_catalog, old_index) = scan_artifact content;
                       w = (if append_catalog then
                              (let w = out_write (File python_file) catalog_banner w;
                                   w = out_write (File python_file)
                                         ([LF, LF] @ catalog_initializer) w
                               in out_write (File python_file) index_initializer w)
                            else w)
                   in (Inr old_index, w))))
      else (Inr [], w))"

text \<open>
  The rest of \<^verbatim>\<open>img2py\<close>. \<^verbatim>\<open>open(python_file, mode)\<close> with mode \<^verbatim>\<open>"w"\<close> creates or empties the
  file; with mode \<^verbatim>\<open>"a"\<close> it creates the file when there is none. The parameter
  \<^verbatim>\<open>functionCompatibile\<close> (the misspelt one) replaces \<^verbatim>\<open>functionCompatible\<close> unless it is left
  at its default \<^verbatim>\<open>-1\<close>, here \<open>None\<close>; the parameter \<^verbatim>\<open>compressed\<close> is never read and is left
  out, as is the creation of the \<^verbatim>\<open>wx.App\<close>, which touches neither the files nor the output.
\<close>

definition open_file :: "string \<Rightarrow> bool \<Rightarrow> world \<Rightarrow> world" where
  \<comment> \<open>\<^verbatim>\<open>open(python_file, "a" if append else "w")\<close>\<close>
  "open_file python_file append' w =
     (if append' then
        (case files w python_file of
           None \<Rightarrow> w\<lparr>files := (files w)(python_file \<mapsto> [])\<rparr>
         | Some _ \<Rightarrow> w)
      else w\<lparr>files := (files w)(python_file \<mapsto> [])\<rparr>)"

definition img2py ::
  "codec \<Rightarrow> string \<Rightarrow> string \<Rightarrow> string \<Rightarrow> bool \<Rightarrow> string option \<Rightarrow> string \<Rightarrow> bool \<Rightarrow> bool \<Rightarrow>
   bool \<Rightarrow> bool option \<Rightarrow> world \<Rightarrow> error option \<times> world" where
  "img2py codec tfname image_file python_file append' maskClr imgName icon catalog
     functionCompatible functionCompatibile w =
     (let functionCompatible =
            (case functionCompatibile of None \<Rightarrow> functionCompatible | Some v \<Rightarrow> v)
      in case convert_and_encode codec tfname image_file maskClr w of
           (Inl e, w) \<Rightarrow> (Some e, w)
         | (Inr None, w) \<Rightarrow> (None, w)
         | (Inr (Some data), w) \<Rightarrow>
             (case reconcile_catalog python_file append' catalog w of
                (Inl e, w) \<Rightarrow> (Some e, w)
              | (Inr old_index, w) \<Rightarrow>
                  (let (imgName, w) =
                         (if imgName = [] then
                            (let imgFile = snd (path_split image_file);
                                 imgName = fst (splitext imgFile)
                             in (imgName,
                                 py_print (LF # ''Warning: -n not specified. Using filename ('' @
                                             imgName @
                                             '') for name of image and/or catalog entry.'') w))
                          else (imgName, w));
                       (r, w) =
                         (if python_file = ''-'' then
                            write_image Stdout imgName data append' icon catalog
                              functionCompatible old_index w
                          else
                            write_image (File python_file) imgName data append' icon catalog
                              functionCompatible old_index (open_file python_file append' w))
                   in case r of
                        Inl e \<Rightarrow> (Some e, w)
                      | Inr _ \<Rightarrow>
                          (let n_msg = (if imgName \<noteq> [] then '' using '' @ [CHR 0x22] @ imgName @ [CHR 0x22]
                                        else []);
                               m_msg = (case maskClr of
                                          None \<Rightarrow> []
                                        | Some m \<Rightarrow> (if m \<noteq> [] then '' with mask '' @ m
                                                     else []))
                           in (None,
                               py_print (''Embedded '' @ image_file @ n_msg @ '' into '' @
                                           python_file @ m_msg) w)))))"

subsection \<open>Examples and abbreviations for the statements below\<close>

text \<open>
  A codec that never loads an image, and a small world: its paths are ASCII, no two of them
  name one file, and its text files are in an encoding that has one byte for each of the
  code points of the model (Latin-1).
\<close>

definition failing_codec :: codec where
  "failing_codec fs fileName maskClr outType =
     CodecReturns False (fileName @ '' failed to load!'') None"

definition example_world :: world where
  "example_world =
     \<lparr>files = [''logo.png'' \<mapsto> ''PNG bytes'', ''empty.png'' \<mapsto> []],
      stdout = [], argv0 = ''img2py.py'',
      str_upper = ascii_upper, same_file = (\<lambda>p q. False),
      encode = (\<lambda>s. s), decode = Some\<rparr>"


text \<open>
  What \<^verbatim>\<open>_write_image\<close> writes after the separator line in append mode: the statements of
  one record. In overwrite mode \<open>fresh_artifact_prologue\<close> comes between the two.
\<close>

definition record_statements ::
  "string \<Rightarrow> string \<Rightarrow> string \<Rightarrow> bool \<Rightarrow> bool \<Rightarrow> bool \<Rightarrow> string" where
  "record_statements varName imgName data icon catalog functionCompatible =
     assignment varName data @
     (if catalog then index_append imgName @ catalog_registration imgName varName else []) @
     (if functionCompatible then
        accessor ''Data'' varName @ accessor ''Image'' varName @ accessor ''Bitmap'' varName @
        (if icon then accessor ''Icon'' varName else [])
      else []) @
     [LF]"

definition fresh_artifact_prologue :: "string \<Rightarrow> bool \<Rightarrow> string" where
  "fresh_artifact_prologue prog catalog =
     header_comment prog @ import_statement @
     (if catalog then catalog_initializer @ index_initializer else [])"

text \<open>The two lines printed when the name is already in \<^verbatim>\<open>old_index\<close>.\<close>

definition duplicate_warning :: "string \<Rightarrow> string" where
  "duplicate_warning imgName =
     ''Warning: '' @ imgName @ '' already in catalog.'' @ [LF] @
     ''         Only the last entry will be accessible.'' @ [LF, LF]"

text \<open>The name \<^verbatim>\<open>img2py\<close> uses: the caller's, or the base name of the image file.\<close>

definition logical_name :: "string \<Rightarrow> string \<Rightarrow> string" where
  "logical_name image_file imgName =
     (if imgName = [] then fst (splitext (snd (path_split image_file))) else imgName)"

text \<open>What \<^verbatim>\<open>img2py\<close> appends when it finds no scaffolding in the artifact.\<close>

definition scaffolding_block :: string where
  "scaffolding_block = catalog_banner @ [LF, LF] @ catalog_initializer @ index_initializer"

definition effective_compatible :: "bool \<Rightarrow> bool option \<Rightarrow> bool" where
  "effective_compatible functionCompatible functionCompatibile =
     (case functionCompatibile of None \<Rightarrow> functionCompatible | Some v \<Rightarrow> v)"

definition name_warning :: "string \<Rightarrow> string" where
  "name_warning imgName =
     LF # ''Warning: -n not specified. Using filename ('' @ imgName @
     '') for name of image and/or catalog entry.''"

definition summary_line :: "string \<Rightarrow> string \<Rightarrow> string \<Rightarrow> string option \<Rightarrow> string" where
  "summary_line image_file imgName python_file maskClr =
     ''Embedded '' @ image_file @
     (if imgName \<noteq> [] then '' using '' @ [CHR 0x22] @ imgName @ [CHR 0x22] else []) @
     '' into '' @ python_file @
     (case maskClr of None \<Rightarrow> [] | Some m \<Rightarrow> (if m \<noteq> [] then '' with mask '' @ m else []))"

text \<open>
  What is written to the artifact, write by write: the texts of one record, those of the
  prologue of a fresh artifact, and those \<^verbatim>\<open>img2py\<close> itself writes when the artifact has no
  scaffolding. \<open>written enc\<close> gives the bytes of a sequence of writes in the encoding \<open>enc\<close>.
\<close>

definition written :: "(string \<Rightarrow> string) \<Rightarrow> string list \<Rightarrow> string" where
  "written enc texts = concat (map enc texts)"

definition record_writes ::
  "string \<Rightarrow> string \<Rightarrow> string \<Rightarrow> bool \<Rightarrow> bool \<Rightarrow> bool \<Rightarrow> string list" where
  "record_writes varName imgName data icon catalog functionCompatible =
     assignment varName data #
     (if catalog then [index_append imgName, catalog_registration imgName varName] else []) @
     (if functionCompatible then
        [accessor ''Data'' varName, accessor ''Image'' varName, accessor ''Bitmap'' varName] @
        (if icon then [accessor ''Icon'' varName] else [])
      else []) @
     [[LF]]"

definition prologue_writes :: "string \<Rightarrow> bool \<Rightarrow> string list" where
  "prologue_writes prog catalog =
     [header_comment prog, import_statement] @
     (if catalog then [catalog_initializer, index_initializer] else [])"

definition scaffolding_writes :: "string list" where
  "scaffolding_writes = [catalog_banner, [LF, LF] @ catalog_initializer, index_initializer]"

text \<open>
  An encoding of text files in which a text appended to a file is read back after the text
  the file held, and the empty file is the empty text. UTF-8 and the encodings of one byte
  for a character are such encodings.
\<close>

definition text_codec :: "world \<Rightarrow> bool" where
  "text_codec w =
     (decode w [] = Some [] \<and>
      (\<forall>bytes content s. decode w bytes = Some content \<longrightarrow>
                          decode w (bytes @ encode w s) = Some (content @ s)))"

text \<open>
  Parts of these texts, for the proofs about lines: the separator line without its newline,
  the banner without the newline before it, and the scaffolding from the banner on.
\<close>

definition rule_text :: string where
  "rule_text = CHR ''#'' # replicate 70 (CHR ''-'')"

definition banner_text :: string where
  "banner_text = tl catalog_banner"

definition scaffolding_rest :: string where
  "scaffolding_rest = banner_text @ [LF, LF] @ catalog_initializer @ index_initializer"

text \<open>
  What a later run reads in the artifact: its text, the known names its scan reconstructs
  (\<^verbatim>\<open>old_index\<close>), and how many of its lines are the marker line \<^verbatim>\<open>catalog = {}\<close>.
\<close>

definition artifact_text :: "world \<Rightarrow> string \<Rightarrow> string option" where
  "artifact_text w p = (case files w p of None \<Rightarrow> None | Some bytes \<Rightarrow> decode w bytes)"

definition known_names :: "world \<Rightarrow> string \<Rightarrow> string list option" where
  "known_names w p = map_option (\<lambda>content. snd (scan_artifact content)) (artifact_text w p)"

definition marker_lines :: "world \<Rightarrow> string \<Rightarrow> nat option" where
  "marker_lines w p =
     map_option (\<lambda>content. count_list (readlines content) catalog_initializer)
       (artifact_text w p)"

text \<open>A logical name that holds the marker line, and an artifact that is the scaffolding.\<close>

definition marker_name :: string where
  "marker_name = LF # ''catalog = {}'' @ [LF]"

definition scaffolded_world :: world where
  "scaffolded_world =
     example_world\<lparr>files := (files example_world)
                                 (''out.py'' \<mapsto> catalog_initializer @ index_initializer)\<rparr>"

text \<open>Artifacts in which the name \<^verbatim>\<open>a\<close> is registered once and twice.\<close>

definition registered_once :: string where
  "registered_once =
     catalog_initializer @ index_initializer @
     index_append ''a'' @ catalog_registration ''a'' ''a''"

definition registered_twice :: string where
  "registered_twice = registered_once @ index_append ''a'' @ catalog_registration ''a'' ''a''"

text \<open>The artifact of the examples exists and is empty.\<close>

definition empty_artifact_world :: world where
  "empty_artifact_world = example_world\<lparr>files := (files example_world)(''out.py'' \<mapsto> [])\<rparr>"

section \<open>Properties\<close>

subsection \<open>Identifier sanitization\<close>

lemma sanitized_letters:
  "list_all (\<lambda>c. alnum c \<or> c = us) (map (\<lambda>letter. if alnum letter then letter else us) n)"
  by (induction n) auto

text \<open>
  C4, as stated, asks for an identifier for every logical name, the empty one included.
  On the empty name the comprehension gives an empty list and \<^verbatim>\<open>letters[0]\<close> raises
  IndexError: the function is not defined there, and no identifier is derived.
\<close>

theorem C4_empty_name_raises:
  "replace_non_alphanumeric_with_underscore [] = Inl IndexError"
  by (simp add: replace_non_alphanumeric_with_underscore_def replace_non_alphanumeric_def)

text \<open>
  C4, amended: for every non-empty logical name (one that starts with a digit or consists
  of non-alphanumeric characters only included) the function returns an identifier made of
  alphanumerics and underscores whose first character is a letter or an underscore. The
  alphanumerics and the letters are those of \<^verbatim>\<open>str.isalnum\<close> and \<^verbatim>\<open>str.isalpha\<close>, the
  classifications by which the function itself replaces characters. The statement is about
  names over any type of characters and any two classifications, \<^verbatim>\<open>str\<close> with the Unicode
  classes among them; its second half is the instance at the characters of the model.
\<close>

theorem C4_identifier_valid:
  assumes "imgName \<noteq> []"
  shows "(\<exists>v. replace_non_alphanumeric alnum alpha us imgName = Inr v
              \<and> identifier_shape alnum alpha us v)
         \<and> (name \<noteq> [] \<longrightarrow>
              (\<exists>v. replace_non_alphanumeric_with_underscore name = Inr v \<and> valid_identifier v))"
proof -
  have shape: "\<exists>v. replace_non_alphanumeric al ap u n = Inr v \<and> identifier_shape al ap u v"
    if "n \<noteq> []" for al ap :: "'d \<Rightarrow> bool" and u :: 'd and n :: "'d list"
  proof -
    from that obtain c cs where n: "n = c # cs"
      by (cases n) auto
    have all: "list_all (\<lambda>c. al c \<or> c = u) (map (\<lambda>letter. if al letter then letter else u) cs)"
      by (rule sanitized_letters)
    show ?thesis
      using all by (simp add: n replace_non_alphanumeric_def identifier_shape_def Let_def)
  qed
  show ?thesis
    using shape [OF assms, of alnum alpha us] shape [of name isalnum isalpha "CHR ''_''"]
    by (simp add: replace_non_alphanumeric_with_underscore_def valid_identifier_def)
qed

theorem C4_identifier_valid_witness:
  "''9 lives!'' \<noteq> []
   \<and> replace_non_alphanumeric_with_underscore ''9 lives!'' = Inr ''_9_lives_''
   \<and> valid_identifier ''_9_lives_''
   \<and> replace_non_alphanumeric_with_underscore ''<->'' = Inr ''___''
   \<and> replace_non_alphanumeric_with_underscore [CHR ''c'', CHR ''a'', CHR ''f'', CHR 0xE9, CHR ''!'']
       = Inr [CHR ''c'', CHR ''a'', CHR ''f'', CHR 0xE9, CHR ''_'']
   \<and> replace_non_alphanumeric_with_underscore [CHR 0xB2, CHR 0xD7]
       = Inr [CHR ''_'', CHR 0xB2, CHR ''_'']
   \<and> (\<exists>v. replace_non_alphanumeric isalnum isalpha (CHR ''_'') ''9 lives!'' = Inr v
           \<and> identifier_shape isalnum isalpha (CHR ''_'') v)
   \<and> (\<exists>v. replace_non_alphanumeric_with_underscore ''9 lives!'' = Inr v \<and> valid_identifier v)"
proof -
  have run: "replace_non_alphanumeric_with_underscore ''9 lives!'' = Inr ''_9_lives_''
     \<and> valid_identifier ''_9_lives_''
     \<and> replace_non_alphanumeric_with_underscore ''<->'' = Inr ''___''
     \<and> replace_non_alphanumeric_with_underscore [CHR ''c'', CHR ''a'', CHR ''f'', CHR 0xE9, CHR ''!'']
         = Inr [CHR ''c'', CHR ''a'', CHR ''f'', CHR 0xE9, CHR ''_'']
     \<and> replace_non_alphanumeric_with_underscore [CHR 0xB2, CHR 0xD7]
         = Inr [CHR ''_'', CHR 0xB2, CHR ''_'']"
    by code_simp
  show ?thesis
    using C4_identifier_valid [of "''9 lives!''" isalnum isalpha "CHR ''_''" "''9 lives!''"] run
    by simp
qed

subsection \<open>Base64 round trip\<close>

lemma b64_index_char: "i < 64 \<Longrightarrow> b64_index (b64_char i) = Some i"
  by (auto simp: b64_index_def b64_char_def isupper_ch_def islower_ch_def isdigit_ch_def)

lemma b64_index_pad: "b64_index (CHR ''='') = None"
  by (simp add: b64_index_def isupper_ch_def islower_ch_def isdigit_ch_def)

lemma b64_char_not_pad: "i < 64 \<Longrightarrow> b64_char i \<noteq> CHR ''=''"
  using b64_index_char [of i] b64_index_pad by auto

lemma byte_bound: "(of_char (c::char) :: nat) < 256"
  by simp

lemma sextet_bounds:
  fixes x y z :: nat
  assumes "x < 256" "y < 256" "z < 256"
  shows "x div 4 < 64" "x mod 4 * 16 + y div 16 < 64" "y mod 16 * 4 + z div 64 < 64"
    "z mod 64 < 64" "y mod 16 * 4 < 64" "x mod 4 * 16 < 64"
  using assms by arith+

lemma sextets_to_bytes:
  fixes x y z :: nat
  assumes "x < 256" "y < 256" "z < 256"
  shows "x div 4 * 4 + (x mod 4 * 16 + y div 16) div 16 = x"
    and "(x mod 4 * 16 + y div 16) mod 16 * 16 + (y mod 16 * 4 + z div 64) div 4 = y"
    and "(y mod 16 * 4 + z div 64) mod 4 * 64 + z mod 64 = z"
    and "(x mod 4 * 16 + y div 16) mod 16 * 16 + (y mod 16 * 4) div 4 = y"
    and "x div 4 * 4 + (x mod 4 * 16) div 16 = x"
proof -
  have y16: "y div 16 < 16" and z64: "z div 64 < 4"
    using assms by arith+
  have hi: "(x mod 4 * 16 + y div 16) div 16 = x mod 4"
    using y16 by simp
  have lo: "(x mod 4 * 16 + y div 16) mod 16 = y div 16"
    using y16 by simp
  have hi2: "(y mod 16 * 4 + z div 64) div 4 = y mod 16"
    using z64 by simp
  have lo2: "(y mod 16 * 4 + z div 64) mod 4 = z div 64"
    using z64 by simp
  show "x div 4 * 4 + (x mod 4 * 16 + y div 16) div 16 = x"
    unfolding hi by simp
  show "(x mod 4 * 16 + y div 16) mod 16 * 16 + (y mod 16 * 4 + z div 64) div 4 = y"
    unfolding hi2 lo by simp
  show "(y mod 16 * 4 + z div 64) mod 4 * 64 + z mod 64 = z"
    unfolding lo2 by simp
  show "(x mod 4 * 16 + y div 16) mod 16 * 16 + (y mod 16 * 4) div 4 = y"
    unfolding lo by simp
  show "x div 4 * 4 + (x mod 4 * 16) div 16 = x"
    by simp
qed

lemma b64_quads_encode: "b64_quads (b64encode bs) = Some bs"
proof (induction bs rule: b64encode.induct)
  case (1 a b c rest)
  then show ?case
    using sextet_bounds [OF byte_bound [of a] byte_bound [of b] byte_bound [of c]]
      sextets_to_bytes [OF byte_bound [of a] byte_bound [of b] byte_bound [of c]]
    by (simp add: Let_def b64_index_char b64_char_not_pad)
next
  case (2 a b)
  then show ?case
    using sextet_bounds [OF byte_bound [of a] byte_bound [of b] byte_bound [of b]]
      sextets_to_bytes [OF byte_bound [of a] byte_bound [of b] byte_bound [of b]]
    by (simp add: Let_def b64_index_char b64_char_not_pad b64_index_pad)
next
  case (3 a)
  then show ?case
    using sextet_bounds [OF byte_bound [of a] byte_bound [of a] byte_bound [of a]]
      sextets_to_bytes [OF byte_bound [of a] byte_bound [of a] byte_bound [of a]]
    by (simp add: Let_def b64_index_char b64_char_not_pad b64_index_pad)
next
  case 4
  then show ?case by simp
qed


lemma sextet_lt:
  fixes a b c :: char
  shows "(of_char a :: nat) div 4 < 64"
    and "(of_char a :: nat) mod 4 * 16 + of_char b div 16 < 64"
    and "(of_char b :: nat) mod 16 * 4 + of_char c div 64 < 64"
    and "(of_char c :: nat) mod 64 < 64"
    and "(of_char b :: nat) mod 16 * 4 < 64"
    and "(of_char a :: nat) mod 4 * 16 < 64"
  using sextet_bounds [OF byte_bound [of a] byte_bound [of b] byte_bound [of c]]
  by blast+

lemma is_b64_char: "i < 64 \<Longrightarrow> is_b64 (b64_char i)"
  by (simp add: is_b64_def b64_index_char)

lemma b64encode_chars: "list_all is_b64 (b64encode bs)"
  by (induction bs rule: b64encode.induct)
     (simp_all add: Let_def is_b64_char sextet_lt, simp_all add: is_b64_def b64_index_pad)

lemma repr_byte_b64: "is_b64 c \<Longrightarrow> repr_byte sq c = [c]"
  by (auto simp: is_b64_def b64_index_def repr_byte_def sq_def LF_def CR_def
        isupper_ch_def islower_ch_def isdigit_ch_def split: if_splits option.splits)

lemma is_b64_not_sq: "is_b64 c \<Longrightarrow> c \<noteq> sq"
  by (auto simp: is_b64_def b64_index_def sq_def
        isupper_ch_def islower_ch_def isdigit_ch_def split: if_splits option.splits)

lemma is_b64_not_LF: "is_b64 c \<Longrightarrow> c \<noteq> LF"
  by (auto simp: is_b64_def b64_index_def LF_def
        isupper_ch_def islower_ch_def isdigit_ch_def split: if_splits option.splits)

lemma concat_repr_b64: "list_all is_b64 bs \<Longrightarrow> concat (map (repr_byte sq) bs) = bs"
  by (induction bs) (simp_all add: repr_byte_b64)

lemma bytes_repr_b64:
  assumes "list_all is_b64 bs"
  shows "bytes_repr bs = CHR ''b'' # sq # bs @ [sq]"
proof -
  have "sq \<notin> set bs"
    using assms is_b64_not_sq by (auto simp: list_all_iff)
  then show ?thesis
    by (simp add: bytes_repr_def concat_repr_b64 [OF assms])
qed



subsection \<open>The payload loop\<close>

lemma payload_lines_Nil: "payload_lines [] acc = acc"
  by (subst payload_lines.simps) simp

lemma payload_lines_step:
  "data \<noteq> [] \<Longrightarrow>
   payload_lines data acc = payload_lines (drop 72 data) (acc @ [payload_chunk data])"
  by (subst payload_lines.simps) (simp add: Let_def payload_chunk_def)

lemma payload_lines_acc: "payload_lines data acc = acc @ payload_lines data []"
proof (induction "length data" arbitrary: data acc rule: less_induct)
  case less
  show ?case
  proof (cases "data = []")
    case True
    then show ?thesis by (simp add: payload_lines_Nil)
  next
    case False
    have lt: "length (drop 72 data) < length data"
      using False by simp
    have "payload_lines data acc = payload_lines (drop 72 data) (acc @ [payload_chunk data])"
      by (rule payload_lines_step [OF False])
    also have "\<dots> = (acc @ [payload_chunk data]) @ payload_lines (drop 72 data) []"
      by (rule less [OF lt])
    also have "\<dots> = acc @ ([payload_chunk data] @ payload_lines (drop 72 data) [])"
      by simp
    also have "[payload_chunk data] @ payload_lines (drop 72 data) []
                 = payload_lines (drop 72 data) ([] @ [payload_chunk data])"
      using less [OF lt, of "[payload_chunk data]"] by simp
    also have "\<dots> = payload_lines data []"
      using payload_lines_step [OF False, of "[]"] by simp
    finally show ?thesis .
  qed
qed

lemma payload_lines_unfold:
  "data \<noteq> [] \<Longrightarrow>
   payload_lines data [] = payload_chunk data # payload_lines (drop 72 data) []"
  using payload_lines_step [of data "[]"]
    payload_lines_acc [of "drop 72 data" "[payload_chunk data]"]
  by simp

lemma payload_chunk_b64:
  assumes "list_all is_b64 data"
  shows "payload_chunk data =
           ''    '' @ CHR ''b'' # sq # take 72 data @ [sq] @
           (if drop 72 data = [] then '')'' else [])"
proof -
  have "list_all is_b64 (take 72 data)"
    using assms by (auto simp: list_all_iff dest: in_set_takeD)
  then show ?thesis
    by (simp add: payload_chunk_def bytes_repr_b64)
qed

lemma payload_chunk_no_LF:
  assumes "list_all is_b64 data"
  shows "LF \<notin> set (payload_chunk data)"
proof -
  have "LF \<notin> set (take 72 data)"
    using assms is_b64_not_LF by (auto simp: list_all_iff dest: in_set_takeD)
  then show ?thesis
    by (simp add: payload_chunk_b64 [OF assms] LF_def sq_def)
qed

lemma payload_lines_text:
  assumes "list_all is_b64 data" and "data \<noteq> []"
  shows "payload_lines data [] \<noteq> []
         \<and> (\<forall>l\<in>set (payload_lines data []). LF \<notin> set l)
         \<and> concat (map (\<lambda>chunk. unquote_bytes_literal (drop 4 chunk))
              (butlast (payload_lines data []) @ [butlast (last (payload_lines data []))]))
           = data"
  using assms
proof (induction "length data" arbitrary: data rule: less_induct)
  case less
  note b64 = \<open>list_all is_b64 data\<close> and ne = \<open>data \<noteq> []\<close>
  have unf: "payload_lines data [] = payload_chunk data # payload_lines (drop 72 data) []"
    by (rule payload_lines_unfold [OF ne])
  show ?case
  proof (cases "drop 72 data = []")
    case True
    then have whole: "take 72 data = data"
      by simp
    have L: "payload_lines data [] = [payload_chunk data]"
      using unf True by (simp add: payload_lines_Nil)
    have chunk: "payload_chunk data = ''    '' @ CHR ''b'' # sq # data @ [sq] @ '')''"
      using payload_chunk_b64 [OF b64] True whole by simp
    have "butlast (payload_chunk data) = ''    '' @ CHR ''b'' # sq # data @ [sq]"
      unfolding chunk by (simp add: butlast_append)
    then have "unquote_bytes_literal (drop 4 (butlast (payload_chunk data))) = data"
      by (simp add: unquote_bytes_literal_def butlast_append)
    then show ?thesis
      using payload_chunk_no_LF [OF b64] by (simp add: L)
  next
    case False
    have lt: "length (drop 72 data) < length data"
      using ne by simp
    have b64': "list_all is_b64 (drop 72 data)"
      using b64 by (auto simp: list_all_iff dest: in_set_dropD)
    note IH = less(1) [OF lt b64' False]
    let ?rest = "payload_lines (drop 72 data) []"
    have chunk: "payload_chunk data = ''    '' @ CHR ''b'' # sq # take 72 data @ [sq]"
      using payload_chunk_b64 [OF b64] False by simp
    have first: "unquote_bytes_literal (drop 4 (payload_chunk data)) = take 72 data"
      unfolding chunk by (simp add: unquote_bytes_literal_def butlast_append)
    have "butlast (payload_lines data []) @ [butlast (last (payload_lines data []))]
            = payload_chunk data # (butlast ?rest @ [butlast (last ?rest)])"
      using IH by (simp add: unf)
    then show ?thesis
      using IH first payload_chunk_no_LF [OF b64] by (simp add: unf)
  qed
qed

lemma split_on_nonempty: "split_on sep s \<noteq> []"
  by (induction s) (auto split: list.splits)

lemma split_on_no_sep: "sep \<notin> set l \<Longrightarrow> split_on sep l = [l]"
  by (induction l) auto

lemma split_on_append:
  "sep \<notin> set l \<Longrightarrow> split_on sep (l @ sep # rest) = l # split_on sep rest"
  by (induction l) auto

lemma split_on_join:
  "L \<noteq> [] \<Longrightarrow> \<forall>l\<in>set L. sep \<notin> set l \<Longrightarrow> split_on sep (str_join [sep] L) = L"
  by (induction "[sep]" L rule: str_join.induct)
     (simp_all add: split_on_no_sep split_on_append)

lemma filter_b64: "list_all is_b64 s \<Longrightarrow> filter is_b64 s = s"
  by (induction s) auto

lemma b64encode_Nil_iff: "b64encode bs = [] \<longleftrightarrow> bs = []"
  by (cases bs rule: b64encode.cases) (simp_all add: Let_def)

lemma b64decode_encode: "b64decode (b64encode bs) = Some bs"
  using filter_b64 [OF b64encode_chars [of bs]]
  by (simp add: b64decode_def b64_quads_encode)

text \<open>
  C1, amended: for every byte sequence \<open>B\<close>, base64-decoding the chunks of the payload
  produced from \<open>B\<close>, after stripping the newlines joining the chunks, the terminator of
  the final chunk, each chunk's four spaces of indentation and the quotes \<^verbatim>\<open>b'\<close> ... \<^verbatim>\<open>'\<close> of
  the bytes literal each chunk is written as, reproduces \<open>B\<close> exactly.
\<close>

theorem C1_payload_round_trip:
  "b64decode (payload_base64_text unquote_bytes_literal (encode_payload B)) = Some B"
proof (cases "B = []")
  case True
  then show ?thesis
    by (simp add: encode_payload_def payload_lines_Nil payload_base64_text_def
          unquote_bytes_literal_def b64decode_def)
next
  case False
  let ?L = "payload_lines (b64encode B) []"
  have ne: "b64encode B \<noteq> []"
    using False by (simp add: b64encode_Nil_iff)
  note lines_ok = payload_lines_text [OF b64encode_chars ne]
  have "split_on LF (encode_payload B) = ?L"
    unfolding encode_payload_def using lines_ok by (intro split_on_join) auto
  then have "payload_base64_text unquote_bytes_literal (encode_payload B) = b64encode B"
    using lines_ok by (simp add: payload_base64_text_def)
  then show ?thesis
    by (simp add: b64decode_encode)
qed

text \<open>
  C1, as stated, strips the indentation, the newlines and the terminator only. The chunk
  of the one-byte sequence \<^verbatim>\<open>00\<close> is then \<^verbatim>\<open>b'AA=='\<close>, with the quotes of the bytes literal
  still in place, and decoding it gives the two bytes \<^verbatim>\<open>6c 00\<close>: the letter \<^verbatim>\<open>b\<close> is itself
  a character of the alphabet.
\<close>

theorem C1_chunks_keep_bytes_literal_quotes:
  "encode_payload [CHR 0x00] = ''    b'' @ [sq] @ ''AA=='' @ [sq] @ '')''
   \<and> payload_base64_text (\<lambda>chunk. chunk) (encode_payload [CHR 0x00])
       = ''b'' @ [sq] @ ''AA=='' @ [sq]
   \<and> b64decode (payload_base64_text (\<lambda>chunk. chunk) (encode_payload [CHR 0x00]))
       \<noteq> Some [CHR 0x00]"
  by code_simp

subsection \<open>The fast path of \<^verbatim>\<open>convert\<close>\<close>




subsection \<open>The temporary file\<close>

lemma convert_failure_world:
  assumes "convert codec fileName maskClr None tfname outType outExt w = (Inr (False, msg), w')"
  shows "w'\<lparr>files := (files w')(tfname := None)\<rparr> = w\<lparr>files := (files w)(tfname := None)\<rparr>"
  using assms
  by (auto simp: convert_def img2img_convert_def newname_of_def Let_def
        split: if_splits option.splits sum.splits codec_outcome.splits)

text \<open>
  C3: whatever the conversion and encoding phase does (it yields a payload, or the codec
  reports a failure, or an exception is raised), the temporary file does not exist when the
  phase is left. When the codec reports a failure, \<^verbatim>\<open>img2py\<close> returns after printing the
  codec's message: no file differs from before the call, the target artifact included.
  \<open>tfname\<close>, the name of the temporary file, is a name no file had before the call.
\<close>

theorem C3_cleanup_on_every_exit_path:
  "files (snd (convert_and_encode codec tfname image_file maskClr w)) tfname = None
   \<and> (files w tfname = None \<longrightarrow>
      fst (convert codec image_file maskClr None tfname BITMAP_TYPE_PNG ''.png''
             (w\<lparr>files := (files w)(tfname \<mapsto> [])\<rparr>)) = Inr (False, msg) \<longrightarrow>
      img2py codec tfname image_file python_file append' maskClr imgName icon catalog
        functionCompatible functionCompatibile w
      = (None, w\<lparr>stdout := stdout w @ msg @ [LF]\<rparr>))"
proof (intro conjI impI)
  show "files (snd (convert_and_encode codec tfname image_file maskClr w)) tfname = None"
    by (simp add: convert_and_encode_def Let_def split: prod.splits)
next
  assume fresh: "files w tfname = None"
    and fail: "fst (convert codec image_file maskClr None tfname BITMAP_TYPE_PNG ''.png''
                 (w\<lparr>files := (files w)(tfname \<mapsto> [])\<rparr>)) = Inr (False, msg)"
  let ?w1 = "w\<lparr>files := (files w)(tfname \<mapsto> [])\<rparr>"
  obtain w2 where conv:
    "convert codec image_file maskClr None tfname BITMAP_TYPE_PNG ''.png'' ?w1
       = (Inr (False, msg), w2)"
    using fail by (cases "convert codec image_file maskClr None tfname BITMAP_TYPE_PNG ''.png'' ?w1") auto
  have "w2\<lparr>files := (files w2)(tfname := None)\<rparr> = ?w1\<lparr>files := (files ?w1)(tfname := None)\<rparr>"
    by (rule convert_failure_world [OF conv])
  also have "\<dots> = w"
  proof -
    have "(files w)(tfname := None) = files w"
      using fresh by (auto simp: fun_eq_iff)
    then show ?thesis
      by simp
  qed
  finally have same: "w2\<lparr>files := (files w2)(tfname := None)\<rparr> = w" .
  have "(py_print msg w2)\<lparr>files := (files (py_print msg w2))(tfname := None)\<rparr>
          = (w2\<lparr>files := (files w2)(tfname := None)\<rparr>)\<lparr>stdout := stdout w2 @ msg @ [LF]\<rparr>"
    by (simp add: py_print_def)
  also have "\<dots> = w\<lparr>stdout := stdout w @ msg @ [LF]\<rparr>"
  proof -
    have "stdout w2 = stdout (w2\<lparr>files := (files w2)(tfname := None)\<rparr>)"
      by simp
    then have "stdout w2 = stdout w"
      by (simp only: same)
    then show ?thesis
      by (simp only: same)
  qed
  finally have "(py_print msg w2)\<lparr>files := (files (py_print msg w2))(tfname := None)\<rparr>
                  = w\<lparr>stdout := stdout w @ msg @ [LF]\<rparr>" .
  then have "convert_and_encode codec tfname image_file maskClr w
               = (Inr None, w\<lparr>stdout := stdout w @ msg @ [LF]\<rparr>)"
    by (simp add: convert_and_encode_def conv)
  then show "img2py codec tfname image_file python_file append' maskClr imgName icon catalog
               functionCompatible functionCompatibile w
             = (None, w\<lparr>stdout := stdout w @ msg @ [LF]\<rparr>)"
    by (simp add: img2py_def)
qed

theorem C3_cleanup_on_every_exit_path_witness:
  "files example_world ''/tmp/t'' = None
   \<and> fst (convert failing_codec ''logo.bmp'' None None ''/tmp/t'' BITMAP_TYPE_PNG ''.png''
            (example_world\<lparr>files := (files example_world)(''/tmp/t'' \<mapsto> [])\<rparr>))
       = Inr (False, ''logo.bmp failed to load!'')
   \<and> img2py failing_codec ''/tmp/t'' ''logo.bmp'' ''out.py'' False None ''logo'' False True
        False None example_world
       = (None, example_world\<lparr>stdout := ''logo.bmp failed to load!'' @ [LF]\<rparr>)"
proof -
  have fresh: "files example_world ''/tmp/t'' = None"
    by (simp add: example_world_def)
  have ext: "\<not> endswith (ascii_upper ''logo.bmp'') (ascii_upper ''.png'')"
    by code_simp
  have fail: "fst (convert failing_codec ''logo.bmp'' None None ''/tmp/t'' BITMAP_TYPE_PNG ''.png''
                 (example_world\<lparr>files := (files example_world)(''/tmp/t'' \<mapsto> [])\<rparr>))
              = Inr (False, ''logo.bmp failed to load!'')"
    using ext by (simp add: convert_def img2img_convert_def failing_codec_def example_world_def)
  show ?thesis
    using C3_cleanup_on_every_exit_path [of failing_codec "''/tmp/t''" "''logo.bmp''" None
        example_world "''logo.bmp failed to load!''" "''out.py''" False "''logo''" False True
        False None] fresh fail
    by (simp add: example_world_def)
qed

subsection \<open>Reading lines\<close>

lemma universal_newlines_id: "CR \<notin> set s \<Longrightarrow> universal_newlines s = s"
  by (induction s rule: universal_newlines.induct) auto

lemma universal_newlines_append:
  "b = [] \<or> hd b \<noteq> LF \<Longrightarrow>
   universal_newlines (a @ b) = universal_newlines a @ universal_newlines b"
proof (induction a rule: universal_newlines.induct)
  case 1
  then show ?case by simp
next
  case (2 c)
  then show ?case by (cases b) auto
next
  case (3 c d cs)
  then show ?case by auto
qed

lemma universal_newlines_append_LF:
  "universal_newlines (a @ LF # b) =
     (if a \<noteq> [] \<and> last a = CR then universal_newlines a @ universal_newlines b
      else universal_newlines a @ LF # universal_newlines b)"
proof (induction a rule: universal_newlines.induct)
  case 1
  then show ?case by (cases b) (auto simp: LF_def CR_def)
next
  case (2 c)
  then show ?case by (cases b) (auto simp: LF_def CR_def)
next
  case (3 c d cs)
  then show ?case by (auto simp: LF_def CR_def)
qed

lemma universal_newlines_Nil_iff [simp]: "universal_newlines a = [] \<longleftrightarrow> a = []"
  by (induction a rule: universal_newlines.induct) auto

lemma universal_newlines_last:
  "a \<noteq> [] \<Longrightarrow> last a = CR \<or> last a = LF \<Longrightarrow> last (universal_newlines a) = LF"
proof (induction a rule: universal_newlines.induct)
  case 1
  then show ?case by simp
next
  case (2 c)
  then show ?case by auto
next
  case (3 c d cs)
  show ?case
  proof (cases "cs = []")
    case True
    with 3 show ?thesis by auto
  next
    case False
    with 3 show ?thesis by auto
  qed
qed

lemma text_lines_Nil_iff [simp]: "text_lines s = [] \<longleftrightarrow> s = []"
  by (cases s) (auto split: list.splits)

lemma text_lines_line: "LF \<notin> set l \<Longrightarrow> text_lines (l @ LF # rest) = (l @ [LF]) # text_lines rest"
  by (induction l) auto

lemma text_lines_partial: "LF \<notin> set p \<Longrightarrow> p \<noteq> [] \<Longrightarrow> text_lines p = [p]"
proof (induction p)
  case Nil
  then show ?case by simp
next
  case (Cons c p)
  then show ?case by (cases "p = []") auto
qed

lemma text_lines_append:
  "a = [] \<or> last a = LF \<Longrightarrow> text_lines (a @ b) = text_lines a @ text_lines b"
proof (induction a)
  case Nil
  then show ?case by simp
next
  case (Cons c a)
  show ?case
  proof (cases "a = []")
    case True
    with Cons.prems show ?thesis by simp
  next
    case False
    with Cons show ?thesis by (auto split: list.splits)
  qed
qed

lemma split_last_line:
  obtains u p where "a = u @ p" and "u = [] \<or> last u = LF" and "LF \<notin> set p"
proof -
  let ?p = "rev (takeWhile (\<lambda>c. c \<noteq> LF) (rev a))"
  let ?u = "rev (dropWhile (\<lambda>c. c \<noteq> LF) (rev a))"
  have "a = ?u @ ?p"
    by (metis rev_append rev_rev_ident takeWhile_dropWhile_id)
  moreover have "?u = [] \<or> last ?u = LF"
    by (metis (mono_tags, lifting) hd_dropWhile last_rev rev_is_Nil_conv)
  moreover have "LF \<notin> set ?p"
    using set_takeWhileD by fastforce
  ultimately show ?thesis
    using that by blast
qed

subsection \<open>What the index pattern matches\<close>

lemma indexPattern_needs_quote: "sq \<notin> set l \<Longrightarrow> indexPattern_match l = None"
proof (rule ccontr)
  assume nq: "sq \<notin> set l" and "indexPattern_match l \<noteq> None"
  then have "take 8 (drop 6 (dropWhile isspace l)) = ''append('' @ [sq]"
    by (auto simp: indexPattern_match_def Let_def split: if_splits)
  then have "sq \<in> set (take 8 (drop 6 (dropWhile isspace l)))"
    by simp
  then have "sq \<in> set l"
    by (meson in_set_dropD in_set_takeD set_dropWhileD)
  with nq show False by simp
qed

lemma indexPattern_skip_space: "isspace c \<Longrightarrow> indexPattern_match (c # l) = indexPattern_match l"
  by (simp add: indexPattern_match_def)

lemma indexPattern_first_char:
  "\<not> isspace c \<Longrightarrow> c \<noteq> CHR ''i'' \<Longrightarrow> indexPattern_match (c # l) = None"
  by (simp add: indexPattern_match_def)

lemma greedy_group_needs_quote: "sq \<notin> set l \<Longrightarrow> greedy_group l = None"
proof (induction l)
  case Nil
  then show ?case by simp
next
  case (Cons c cs)
  have "take 2 cs \<noteq> [sq, CHR '')'']"
  proof
    assume eq: "take 2 cs = [sq, CHR '')'']"
    have "sq \<in> set (take 2 cs)"
      unfolding eq by simp
    then have "sq \<in> set cs"
      by (rule in_set_takeD)
    with Cons.prems show False by simp
  qed
  moreover have "greedy_group cs = None"
    using Cons by simp
  ultimately show ?case by simp
qed

lemma take2_append:
  assumes "sq \<notin> set s" and "s = [] \<or> hd s \<noteq> CHR '')''"
  shows "take 2 (q @ s) = [sq, CHR '')''] \<longleftrightarrow> take 2 q = [sq, CHR '')'']"
proof (cases q)
  case Nil
  have "take 2 s \<noteq> [sq, CHR '')'']"
  proof
    assume eq: "take 2 s = [sq, CHR '')'']"
    have "sq \<in> set (take 2 s)"
      unfolding eq by simp
    then have "sq \<in> set s"
      by (rule in_set_takeD)
    with assms(1) show False by simp
  qed
  then show ?thesis by (simp add: Nil)
next
  case (Cons x q')
  show ?thesis
  proof (cases q')
    case Nil
    then show ?thesis
      using assms(2) Cons by (cases s) auto
  next
    case (Cons y q'')
    then show ?thesis
      using \<open>q = x # q'\<close> by simp
  qed
qed

lemma greedy_group_append:
  assumes "LF \<notin> set q" and "sq \<notin> set s" and "s = [] \<or> hd s \<noteq> CHR '')''"
  shows "greedy_group (q @ s) = greedy_group q"
  using assms(1)
proof (induction q)
  case Nil
  then show ?case by (simp add: greedy_group_needs_quote [OF assms(2)])
next
  case (Cons c q)
  then show ?case
    using take2_append [OF assms(2,3), of q] by simp
qed

lemma greedy_group_name:
  "N \<noteq> [] \<Longrightarrow> LF \<notin> set N \<Longrightarrow> greedy_group (N @ sq # CHR '')'' # LF # rest) = Some N"
proof (induction N)
  case Nil
  then show ?case by simp
next
  case (Cons c N)
  show ?case
  proof (cases "N = []")
    case True
    then show ?thesis
      using Cons.prems by (simp add: sq_def LF_def)
  next
    case False
    with Cons show ?thesis by auto
  qed
qed

lemma indexPattern_index_append:
  assumes "N \<noteq> []" and "LF \<notin> set N"
  shows "indexPattern_match (index_append N) = Some N"
proof -
  have "\<not> isspace (CHR ''i'')"
    by (simp add: isspace_def)
  then show ?thesis
    using greedy_group_name [OF assms, of "[]"]
    by (simp add: indexPattern_match_def index_append_def LF_def)
qed

lemma indexPattern_append_line_end:
  assumes p: "LF \<notin> set p"
    and l: "sq \<notin> set l" "l \<noteq> []" "hd l \<noteq> CHR '')''"
  shows "indexPattern_match (p @ l) = indexPattern_match p"
proof (cases "dropWhile isspace p = []")
  case True
  then have "\<forall>c\<in>set p. isspace c"
    by (simp add: dropWhile_eq_Nil_conv)
  moreover have "\<not> isspace sq"
    by (simp add: isspace_def sq_def)
  ultimately have "sq \<notin> set p"
    by blast
  then show ?thesis
    using l(1) by (simp add: indexPattern_needs_quote)
next
  case False
  define d where "d = dropWhile isspace p"
  have d_ne: "d \<noteq> []"
    using False by (simp add: d_def)
  have dl: "dropWhile isspace (p @ l) = d @ l"
  proof -
    obtain x where "x \<in> set p" and "\<not> isspace x"
      using False by (auto simp: dropWhile_eq_Nil_conv)
    then show ?thesis
      by (simp add: d_def dropWhile_append1)
  qed
  have d_LF: "LF \<notin> set d"
    using p set_dropWhileD unfolding d_def by fastforce
  show ?thesis
  proof (cases "14 \<le> length d")
    case True
    have "drop 14 (d @ l) = drop 14 d @ l"
      using True by simp
    moreover have "greedy_group (drop 14 d @ l) = greedy_group (drop 14 d)"
    proof (rule greedy_group_append)
      show "LF \<notin> set (drop 14 d)"
        using d_LF in_set_dropD by fastforce
    qed (use l in auto)
    moreover have "take 5 (d @ l) = take 5 d" "(d @ l) ! 5 = d ! 5"
      "take 8 (drop 6 (d @ l)) = take 8 (drop 6 d)" "5 < length (d @ l) \<longleftrightarrow> 5 < length d"
      using True by (simp_all add: nth_append)
    ultimately show ?thesis
      by (simp add: indexPattern_match_def dl d_def [symmetric])
  next
    case short: False
    have none_p: "take 8 (drop 6 d) \<noteq> ''append('' @ [sq]"
    proof
      assume "take 8 (drop 6 d) = ''append('' @ [sq]"
      then have "length (take 8 (drop 6 d)) = 8"
        by simp
      with short show False by simp
    qed
    have none_pl: "take 8 (drop 6 (d @ l)) \<noteq> ''append('' @ [sq]"
    proof
      assume eq: "take 8 (drop 6 (d @ l)) = ''append('' @ [sq]"
      then have len: "length (take 8 (drop 6 (d @ l))) = 8"
        by simp
      then have long: "14 \<le> length (d @ l)"
        by simp
      have "take 8 (drop 6 (d @ l)) ! 7 = sq"
        unfolding eq by simp
      moreover have "take 8 (drop 6 (d @ l)) ! 7 = drop 6 (d @ l) ! 7"
        by (rule nth_take) simp
      moreover have "drop 6 (d @ l) ! 7 = (d @ l) ! (6 + 7)"
        by (rule nth_drop) (use long in simp)
      ultimately have "(d @ l) ! 13 = sq"
        by simp
      then have "l ! (13 - length d) = sq"
        using short by (simp add: nth_append)
      moreover have "13 - length d < length l"
        using long short by simp
      ultimately have "sq \<in> set l"
        by (metis nth_mem)
      with l(1) show False by simp
    qed
    show ?thesis
      using none_p none_pl by (simp add: indexPattern_match_def dl d_def [symmetric])
  qed
qed

subsection \<open>The scan of an artifact\<close>

lemma text_lines_appended:
  assumes "LF \<notin> set l"
  obtains u p where "LF \<notin> set p"
    and "text_lines v = text_lines u @ (if p = [] then [] else [p])"
    and "text_lines (v @ l @ LF # R) = text_lines u @ [p @ l @ [LF]] @ text_lines R"
proof -
  obtain u p where v: "v = u @ p" and u: "u = [] \<or> last u = LF" and p: "LF \<notin> set p"
    by (rule split_last_line)
  have "text_lines v = text_lines u @ text_lines p"
    unfolding v by (rule text_lines_append [OF u])
  then have 1: "text_lines v = text_lines u @ (if p = [] then [] else [p])"
    using p by (simp add: text_lines_partial)
  have "v @ l @ LF # R = u @ ((p @ l) @ LF # R)"
    by (simp add: v)
  then have "text_lines (v @ l @ LF # R) = text_lines u @ text_lines ((p @ l) @ LF # R)"
    using text_lines_append [OF u] by simp
  also have "text_lines ((p @ l) @ LF # R) = ((p @ l) @ [LF]) # text_lines R"
    by (rule text_lines_line) (use p assms in simp)
  finally have 2: "text_lines (v @ l @ LF # R) = text_lines u @ [p @ l @ [LF]] @ text_lines R"
    by simp
  from p 1 2 show ?thesis
    by (rule that)
qed

lemma scan_line_eq:
  "scan_line st l
     = (fst st \<and> l \<noteq> catalog_initializer, snd st @ List.map_filter indexPattern_match [l])"
proof -
  have "sq \<notin> set catalog_initializer"
    by (simp add: catalog_initializer_def sq_def LF_def)
  then have "indexPattern_match catalog_initializer = None"
    by (rule indexPattern_needs_quote)
  then show ?thesis
    by (cases st) (auto simp: scan_line_def List.map_filter_simps split: option.splits)
qed

lemma scan_fold:
  "foldl scan_line st ls
     = (fst st \<and> catalog_initializer \<notin> set ls,
        snd st @ List.map_filter indexPattern_match ls)"
proof (induction ls arbitrary: st)
  case Nil
  then show ?case by (simp add: List.map_filter_simps)
next
  case (Cons l ls)
  have "foldl scan_line st (l # ls) = foldl scan_line (scan_line st l) ls"
    by simp
  also have "\<dots> = (fst (scan_line st l) \<and> catalog_initializer \<notin> set ls,
                   snd (scan_line st l) @ List.map_filter indexPattern_match ls)"
    by (rule Cons.IH)
  finally show ?case
    by (auto simp: scan_line_eq [of st l] List.map_filter_simps split: option.splits)
qed

lemma scan_artifact_eq:
  "scan_artifact content
     = (catalog_initializer \<notin> set (readlines content),
        List.map_filter indexPattern_match (readlines content))"
  by (simp add: scan_artifact_def scan_fold)

lemma map_filter_append':
  "List.map_filter f (xs @ ys) = List.map_filter f xs @ List.map_filter f ys"
  by (simp add: List.map_filter_def)

lemma names_after_append_text:
  assumes l: "sq \<notin> set l" "LF \<notin> set l" "l = [] \<or> hd l \<noteq> CHR '')''"
  shows "List.map_filter indexPattern_match (text_lines (v @ l @ LF # R))
         = List.map_filter indexPattern_match (text_lines v)
           @ List.map_filter indexPattern_match (text_lines R)"
proof -
  obtain u p where p: "LF \<notin> set p"
    and 1: "text_lines v = text_lines u @ (if p = [] then [] else [p])"
    and 2: "text_lines (v @ l @ LF # R) = text_lines u @ [p @ l @ [LF]] @ text_lines R"
    using text_lines_appended [OF l(2)] by blast
  have "indexPattern_match (p @ (l @ [LF])) = indexPattern_match p"
  proof (rule indexPattern_append_line_end [OF p])
    show "sq \<notin> set (l @ [LF])"
      using l(1) by (simp add: sq_def LF_def)
    show "hd (l @ [LF]) \<noteq> CHR '')''"
      using l(3) by (cases l) (auto simp: LF_def)
  qed simp
  moreover have "indexPattern_match [] = None"
    by (simp add: indexPattern_match_def)
  ultimately show ?thesis
    unfolding 1 2
    by (auto simp: List.map_filter_simps map_filter_append' split: option.splits)
qed

lemma names_after_append:
  assumes l: "sq \<notin> set l" "LF \<notin> set l" "l = [] \<or> hd l \<noteq> CHR '')''"
    and cr: "CR \<notin> set l" "CR \<notin> set R"
  shows "List.map_filter indexPattern_match (readlines (a @ l @ LF # R))
         = List.map_filter indexPattern_match (readlines a)
           @ List.map_filter indexPattern_match (text_lines R)"
proof -
  have tail: "universal_newlines (l @ LF # R) = l @ LF # R"
    using cr by (intro universal_newlines_id) (simp add: LF_def CR_def)
  have R: "universal_newlines R = R"
    using cr by (intro universal_newlines_id)
  show ?thesis
  proof (cases "l = [] \<and> a \<noteq> [] \<and> last a = CR")
    case True
    then have "universal_newlines (a @ l @ LF # R) = universal_newlines a @ R"
      by (simp add: universal_newlines_append_LF R)
    moreover have "last (universal_newlines a) = LF"
      using True by (simp add: universal_newlines_last)
    ultimately have "readlines (a @ l @ LF # R) = readlines a @ text_lines R"
      by (simp add: readlines_def text_lines_append)
    then show ?thesis
      by (simp add: map_filter_append')
  next
    case False
    have "universal_newlines (a @ l @ LF # R) = universal_newlines a @ l @ LF # R"
    proof (cases "l = []")
      case True
      with False show ?thesis
        by (auto simp: universal_newlines_append_LF R)
    next
      case nonempty: False
      then have "hd (l @ LF # R) \<noteq> LF"
        using l(2) by (cases l) auto
      then show ?thesis
        using universal_newlines_append [of "l @ LF # R" a] tail by simp
    qed
    then show ?thesis
      using names_after_append_text [OF l, of "universal_newlines a" R]
      by (simp add: readlines_def)
  qed
qed

lemma count_after_append:
  assumes l: "LF \<notin> set l" "l \<noteq> []"
    and cr: "CR \<notin> set l" "CR \<notin> set R"
    and X: "X \<noteq> []" "last X = LF" "\<And>p. p @ l @ [LF] \<noteq> X"
  shows "count_list (readlines (a @ l @ LF # R)) X
         = count_list (readlines a) X + count_list (text_lines R) X"
proof -
  have tail: "universal_newlines (l @ LF # R) = l @ LF # R"
    using cr by (intro universal_newlines_id) (simp add: LF_def CR_def)
  have "hd (l @ LF # R) \<noteq> LF"
    using l by (cases l) auto
  then have un: "universal_newlines (a @ l @ LF # R) = universal_newlines a @ l @ LF # R"
    using universal_newlines_append [of "l @ LF # R" a] tail by simp
  obtain u p where p: "LF \<notin> set p"
    and 1: "text_lines (universal_newlines a) = text_lines u @ (if p = [] then [] else [p])"
    and 2: "text_lines (universal_newlines a @ l @ LF # R)
              = text_lines u @ [p @ l @ [LF]] @ text_lines R"
    using text_lines_appended [OF l(1)] by blast
  have "p \<noteq> X"
    using p X(1,2) by (metis last_in_set)
  then show ?thesis
    using X(3) [of p] by (simp add: readlines_def un 1 2)
qed

subsection \<open>Identifiers in a record\<close>

lemma sanitized_name:
  assumes "replace_non_alphanumeric_with_underscore N = Inr var"
  shows "N \<noteq> []" and "list_all (\<lambda>c. isalnum c \<or> c = CHR ''_'') var" and "var \<noteq> []"
proof -
  show ne: "N \<noteq> []"
    using assms
    by (auto simp: replace_non_alphanumeric_with_underscore_def replace_non_alphanumeric_def)
  obtain c cs where N: "N = c # cs"
    using ne by (cases N) auto
  have "list_all (\<lambda>c. isalnum c \<or> c = CHR ''_'')
          (map (\<lambda>letter. if isalnum letter then letter else CHR ''_'') cs)"
    by (rule sanitized_letters)
  then show "list_all (\<lambda>c. isalnum c \<or> c = CHR ''_'') var"
    using assms
    by (auto simp: N replace_non_alphanumeric_with_underscore_def replace_non_alphanumeric_def
          Let_def split: if_splits)
  show "var \<noteq> []"
    using assms
    by (auto simp: N replace_non_alphanumeric_with_underscore_def replace_non_alphanumeric_def
          Let_def split: if_splits)
qed

lemma identifier_char:
  assumes "isalnum c \<or> c = CHR ''_''"
  shows "c \<noteq> sq" and "c \<noteq> LF" and "c \<noteq> CR" and "c \<noteq> CHR ''-''" and "c \<noteq> CHR '' ''"
    and "c \<noteq> CHR ''[''" and "c \<noteq> CHR ''(''"
  using assms
  by (auto simp: isalnum_def isalpha_def isupper_ch_def islower_ch_def isdigit_ch_def
        sq_def LF_def CR_def)

lemma identifier_chars:
  assumes "list_all (\<lambda>c. isalnum c \<or> c = CHR ''_'') var"
  shows "sq \<notin> set var" and "LF \<notin> set var" and "CR \<notin> set var" and "CHR ''['' \<notin> set var"
proof -
  have ok: "\<And>c. c \<in> set var \<Longrightarrow> isalnum c \<or> c = CHR ''_''"
    using assms by (simp add: list_all_iff)
  show "sq \<notin> set var"
    using ok identifier_char(1) by blast
  show "LF \<notin> set var"
    using ok identifier_char(2) by blast
  show "CR \<notin> set var"
    using ok identifier_char(3) by blast
  show "CHR ''['' \<notin> set var"
    using ok identifier_char(6) by blast
qed

subsection \<open>The lines of a record\<close>

lemma text_lines_join:
  "\<forall>c\<in>set L. LF \<notin> set c \<Longrightarrow> L \<noteq> [] \<Longrightarrow>
   text_lines (str_join [LF] L @ LF # rest) = map (\<lambda>c. c @ [LF]) L @ text_lines rest"
proof (induction "[LF]" L rule: str_join.induct)
  case 1
  then show ?case by simp
next
  case (2 x)
  then show ?case by (simp add: text_lines_line)
next
  case (3 x y ys)
  have "text_lines (x @ LF # (str_join [LF] (y # ys) @ LF # rest))
          = (x @ [LF]) # text_lines (str_join [LF] (y # ys) @ LF # rest)"
    by (rule text_lines_line) (use 3 in simp)
  then show ?case
    using 3 by simp
qed

lemma is_b64_not_CR: "is_b64 c \<Longrightarrow> c \<noteq> CR"
  by (auto simp: is_b64_def b64_index_def CR_def
        isupper_ch_def islower_ch_def isdigit_ch_def split: if_splits option.splits)

lemma payload_chunk_shape:
  assumes "list_all is_b64 data"
  shows "LF \<notin> set (payload_chunk data)" and "CR \<notin> set (payload_chunk data)"
    and "take 5 (payload_chunk data) = ''    b''"
proof -
  show "LF \<notin> set (payload_chunk data)"
    by (rule payload_chunk_no_LF [OF assms])
  have "CR \<notin> set (take 72 data)"
    using assms is_b64_not_CR by (auto simp: list_all_iff dest: in_set_takeD)
  then show "CR \<notin> set (payload_chunk data)"
    by (simp add: payload_chunk_b64 [OF assms] CR_def sq_def)
  show "take 5 (payload_chunk data) = ''    b''"
    by (simp add: payload_chunk_b64 [OF assms])
qed

lemma payload_lines_shape:
  assumes "list_all is_b64 data" and "c \<in> set (payload_lines data [])"
  shows "LF \<notin> set c \<and> CR \<notin> set c \<and> take 5 c = ''    b''"
  using assms
proof (induction "length data" arbitrary: data rule: less_induct)
  case less
  show ?case
  proof (cases "data = []")
    case True
    with less.prems show ?thesis by (simp add: payload_lines_Nil)
  next
    case False
    have lt: "length (drop 72 data) < length data"
      using False by simp
    have b64': "list_all is_b64 (drop 72 data)"
      using less.prems(1) by (auto simp: list_all_iff dest: in_set_dropD)
    from less.prems(2) have "c = payload_chunk data \<or> c \<in> set (payload_lines (drop 72 data) [])"
      by (simp add: payload_lines_unfold [OF False])
    then show ?thesis
      using payload_chunk_shape [OF less.prems(1)] less.hyps [OF lt b64'] by blast
  qed
qed

lemma set_str_join: "set (str_join sep L) \<subseteq> \<Union> (set ` set L) \<union> set sep"
  by (induction sep L rule: str_join.induct) auto

lemma encode_payload_no_CR: "CR \<notin> set (encode_payload bytes)"
proof
  assume "CR \<in> set (encode_payload bytes)"
  then have "CR \<in> \<Union> (set ` set (payload_lines (b64encode bytes) [])) \<union> set [LF]"
    using set_str_join unfolding encode_payload_def by blast
  then obtain c where "c \<in> set (payload_lines (b64encode bytes) [])" and "CR \<in> set c"
    by (auto simp: CR_def LF_def)
  then show False
    using payload_lines_shape [OF b64encode_chars] by blast
qed

lemma payload_text_lines:
  assumes "ln \<in> set (text_lines (encode_payload bytes @ [LF]))"
  shows "ln = [LF] \<or> take 5 ln = ''    b''"
proof (cases "payload_lines (b64encode bytes) [] = []")
  case True
  with assms show ?thesis
    by (simp add: encode_payload_def)
next
  case False
  let ?L = "payload_lines (b64encode bytes) []"
  have shape: "\<forall>c\<in>set ?L. LF \<notin> set c \<and> CR \<notin> set c \<and> take 5 c = ''    b''"
    using payload_lines_shape [OF b64encode_chars] by blast
  then have "text_lines (str_join [LF] ?L @ LF # []) = map (\<lambda>c. c @ [LF]) ?L @ text_lines []"
    using False by (intro text_lines_join) auto
  with assms obtain c where c: "c \<in> set ?L" and ln: "ln = c @ [LF]"
    by (auto simp: encode_payload_def)
  have t5: "take 5 c = ''    b''"
    using shape c by blast
  have "length (take 5 c) = 5"
    unfolding t5 by simp
  then have "5 \<le> length c"
    by simp
  then show ?thesis
    using t5 by (simp add: ln)
qed

lemma text_lines_payload_then:
  "text_lines (encode_payload bytes @ LF # rest)
     = text_lines (encode_payload bytes @ [LF]) @ text_lines rest"
  using text_lines_append [of "encode_payload bytes @ [LF]" rest] by simp

lemma text_lines_index_append:
  "LF \<notin> set N \<Longrightarrow> text_lines (index_append N @ rest) = index_append N # text_lines rest"
  using text_lines_line [of "''index.append('' @ [sq] @ N @ [sq] @ '')''" rest]
  by (simp add: index_append_def sq_def LF_def)

lemma text_lines_catalog_registration:
  "LF \<notin> set N \<Longrightarrow> LF \<notin> set var \<Longrightarrow>
   text_lines (catalog_registration N var @ rest) = catalog_registration N var # text_lines rest"
  using text_lines_line [of "''catalog['' @ [sq] @ N @ [sq] @ ''] = '' @ var" rest]
  by (simp add: catalog_registration_def sq_def LF_def)

lemma text_lines_accessor:
  "LF \<notin> set what \<Longrightarrow> LF \<notin> set var \<Longrightarrow>
   text_lines (accessor what var @ rest) = accessor what var # text_lines rest"
  using text_lines_line [of "''get'' @ var @ what @ '' = '' @ var @ ''.Get'' @ what" rest]
  by (simp add: accessor_def LF_def)

lemma text_lines_assignment:
  "LF \<notin> set var \<Longrightarrow>
   text_lines (assignment var (encode_payload bytes) @ rest)
     = (var @ '' = PyEmbeddedImage('' @ [LF]) # text_lines (encode_payload bytes @ [LF])
       @ text_lines rest"
  using text_lines_line [of "var @ '' = PyEmbeddedImage(''" "encode_payload bytes @ LF # rest"]
    text_lines_payload_then [of bytes rest]
  by (simp add: assignment_def LF_def)

lemma record_text_lines:
  assumes "LF \<notin> set var" and "LF \<notin> set N"
  shows "text_lines (record_statements var N (encode_payload bytes) icon catalog fc)
         = (var @ '' = PyEmbeddedImage('' @ [LF]) # text_lines (encode_payload bytes @ [LF]) @
           (if catalog then [index_append N, catalog_registration N var] else []) @
           (if fc then [accessor ''Data'' var, accessor ''Image'' var, accessor ''Bitmap'' var]
                       @ (if icon then [accessor ''Icon'' var] else [])
            else []) @
           [[LF]]"
proof -
  have w: "LF \<notin> set ''Data''" "LF \<notin> set ''Image''" "LF \<notin> set ''Bitmap''" "LF \<notin> set ''Icon''"
    by (simp_all add: LF_def)
  show ?thesis
    using assms w
    by (cases catalog; cases fc; cases icon)
       (simp_all add: record_statements_def text_lines_assignment text_lines_index_append
          text_lines_catalog_registration text_lines_accessor)
qed

lemma map_filter_none: "\<forall>l\<in>set ls. f l = None \<Longrightarrow> List.map_filter f ls = []"
  by (induction ls) (simp_all add: List.map_filter_simps)

lemma payload_line_no_match:
  assumes "ln \<in> set (text_lines (encode_payload bytes @ [LF]))"
  shows "indexPattern_match ln = None"
proof -
  from payload_text_lines [OF assms] show ?thesis
  proof
    assume "ln = [LF]"
    then show ?thesis
      by (simp add: indexPattern_needs_quote sq_def LF_def)
  next
    assume t5: "take 5 ln = ''    b''"
    then obtain rest where ln: "ln = ''    b'' @ rest"
      by (metis append_take_drop_id)
    have sp: "isspace (CHR '' '')" and b: "\<not> isspace (CHR ''b'')"
      by (simp_all add: isspace_def)
    show ?thesis
      unfolding ln using sp b
      by (simp add: indexPattern_skip_space indexPattern_first_char)
  qed
qed

lemma payload_line_first:
  assumes "ln \<in> set (text_lines (encode_payload bytes @ [LF]))"
  shows "ln \<noteq> [] \<and> (hd ln = LF \<or> hd ln = CHR '' '')"
proof -
  from payload_text_lines [OF assms] show ?thesis
  proof
    assume "ln = [LF]"
    then show ?thesis by simp
  next
    assume t5: "take 5 ln = ''    b''"
    then obtain rest where ln: "ln = ''    b'' @ rest"
      by (metis append_take_drop_id)
    show ?thesis
      unfolding ln by simp
  qed
qed

lemma record_names:
  assumes var: "list_all (\<lambda>c. isalnum c \<or> c = CHR ''_'') var"
    and N: "N \<noteq> []" "LF \<notin> set N"
  shows "List.map_filter indexPattern_match
           (text_lines (record_statements var N (encode_payload bytes) icon catalog fc))
         = (if catalog then [N] else [])"
proof -
  note v = identifier_chars [OF var]
  have assign: "indexPattern_match (var @ '' = PyEmbeddedImage('' @ [LF]) = None"
    using v(1) by (intro indexPattern_needs_quote) (simp add: sq_def LF_def)
  have payload: "List.map_filter indexPattern_match (text_lines (encode_payload bytes @ [LF])) = []"
    using payload_line_no_match by (intro map_filter_none) blast
  have reg: "indexPattern_match (catalog_registration N var) = None"
    by (simp add: catalog_registration_def indexPattern_first_char isspace_def)
  have acc: "\<And>what. sq \<notin> set what \<Longrightarrow> indexPattern_match (accessor what var) = None"
    using v(1) by (intro indexPattern_needs_quote) (simp add: accessor_def sq_def LF_def)
  have accs: "indexPattern_match (accessor ''Data'' var) = None"
    "indexPattern_match (accessor ''Image'' var) = None"
    "indexPattern_match (accessor ''Bitmap'' var) = None"
    "indexPattern_match (accessor ''Icon'' var) = None"
    by (rule acc, simp add: sq_def)+
  have blank: "indexPattern_match [LF] = None"
    by (simp add: indexPattern_needs_quote sq_def LF_def)
  show ?thesis
    using assign payload reg accs blank indexPattern_index_append [OF N]
    by (simp add: record_text_lines [OF v(2) N(2)] List.map_filter_simps map_filter_append')
qed

lemma record_no_CR:
  assumes var: "list_all (\<lambda>c. isalnum c \<or> c = CHR ''_'') var" and N: "CR \<notin> set N"
  shows "CR \<notin> set (record_statements var N (encode_payload bytes) icon catalog fc)"
  using identifier_chars(3) [OF var] N encode_payload_no_CR [of bytes]
  by (simp add: record_statements_def assignment_def index_append_def
        catalog_registration_def accessor_def CR_def LF_def sq_def)

lemma payload_line_quote:
  assumes "ln \<in> set (text_lines (encode_payload bytes @ [LF]))"
  shows "ln = [LF] \<or> hd ln = CHR '' ''"
proof -
  from payload_text_lines [OF assms] show ?thesis
  proof
    assume "ln = [LF]"
    then show ?thesis by simp
  next
    assume "take 5 ln = ''    b''"
    then have "hd (take 5 ln) = CHR '' ''"
      by simp
    then have "hd ln = CHR '' ''"
      by (cases ln) simp_all
    then show ?thesis by simp
  qed
qed

lemma record_lacks_line:
  assumes var: "list_all (\<lambda>c. isalnum c \<or> c = CHR ''_'') var"
    and N: "LF \<notin> set N"
    and X: "CHR ''('' \<notin> set X" "sq \<notin> set X" "CHR ''.'' \<notin> set X" "X \<noteq> [LF]"
      "X \<noteq> []" "hd X \<noteq> CHR '' ''"
  shows "X \<notin> set (text_lines (record_statements var N (encode_payload bytes) icon catalog fc))"
proof -
  note v = identifier_chars [OF var]
  have assign: "X \<noteq> var @ '' = PyEmbeddedImage('' @ [LF]"
    using X(1) by auto
  have payload: "X \<notin> set (text_lines (encode_payload bytes @ [LF]))"
    using payload_line_quote [of X bytes] X(4,6) by blast
  have idx: "X \<noteq> index_append N"
    using X(2) by (auto simp: index_append_def)
  have reg: "X \<noteq> catalog_registration N var"
    using X(2) by (auto simp: catalog_registration_def)
  have acc: "\<And>what. X \<noteq> accessor what var"
    using X(3) by (auto simp: accessor_def)
  show ?thesis
    using assign payload idx reg acc X(4)
    by (simp add: record_text_lines [OF v(2) N])
qed

lemma record_registration_count:
  assumes var: "list_all (\<lambda>c. isalnum c \<or> c = CHR ''_'') var"
    and N: "LF \<notin> set N"
  shows "count_list (text_lines (record_statements var N (encode_payload bytes) icon catalog fc))
           (catalog_registration N var)
         = (if catalog then 1 else 0)"
proof -
  let ?X = "catalog_registration N var"
  note v = identifier_chars [OF var]
  have q: "sq \<in> set ?X" and h: "hd ?X = CHR ''c''"
    by (simp_all add: catalog_registration_def)
  have assign: "var @ '' = PyEmbeddedImage('' @ [LF] \<noteq> ?X"
  proof
    assume "var @ '' = PyEmbeddedImage('' @ [LF] = ?X"
    then have "sq \<in> set (var @ '' = PyEmbeddedImage('' @ [LF])"
      using q by simp
    then show False
      using v(1) by (simp add: sq_def LF_def)
  qed
  have "?X \<notin> set (text_lines (encode_payload bytes @ [LF]))"
    using payload_line_quote [of ?X bytes] h by (auto simp: catalog_registration_def LF_def)
  then have payload: "count_list (text_lines (encode_payload bytes @ [LF])) ?X = 0"
    by (simp add: count_list_0_iff)
  have idx: "index_append N \<noteq> ?X"
    by (simp add: index_append_def catalog_registration_def)
  have acc: "\<And>what. accessor what var \<noteq> ?X"
    by (simp add: accessor_def catalog_registration_def)
  have blank: "[LF] \<noteq> ?X"
    by (simp add: catalog_registration_def)
  show ?thesis
    using assign payload idx acc blank
    by (simp add: record_text_lines [OF v(2) N])
qed

subsection \<open>What the emitter writes, write by write\<close>

lemma concat_record_writes:
  "concat (record_writes varName imgName data icon catalog functionCompatible)
     = record_statements varName imgName data icon catalog functionCompatible"
  by (simp add: record_writes_def record_statements_def)

lemma concat_prologue_writes:
  "concat (prologue_writes prog catalog) = fresh_artifact_prologue prog catalog"
  by (simp add: prologue_writes_def fresh_artifact_prologue_def)

lemma concat_scaffolding_writes: "concat scaffolding_writes = scaffolding_block"
  by (simp add: scaffolding_writes_def scaffolding_block_def)

lemma written_Nil: "written enc [] = []"
  by (simp add: written_def)

lemma written_append: "written enc (xs @ ys) = written enc xs @ written enc ys"
  by (simp add: written_def)

lemma decode_written:
  assumes "text_codec w" and "decode w bytes = Some content"
  shows "decode w (bytes @ written (encode w) texts) = Some (content @ concat texts)"
  using assms(2)
proof (induction texts arbitrary: bytes content)
  case Nil
  then show ?case by (simp add: written_def)
next
  case (Cons s texts)
  have "decode w (bytes @ encode w s) = Some (content @ s)"
    using assms(1) Cons.prems by (simp add: text_codec_def)
  from Cons.IH [OF this] show ?case
    by (simp add: written_def)
qed

lemma write_image_file:
  assumes "replace_non_alphanumeric_with_underscore imgName = Inr varName"
    and "files w p = Some old"
  shows "write_image (File p) imgName data append' icon catalog functionCompatible old_index w
         = (Inr (if catalog then old_index @ [imgName] else old_index),
            w\<lparr>files := (files w)(p \<mapsto>
                   old @ written (encode w)
                     (separator_line #
                      (if append' then [] else prologue_writes (argv0 w) catalog) @
                      record_writes varName imgName data icon catalog functionCompatible)),
               stdout := stdout w @
                   (if catalog \<and> imgName \<in> set old_index then duplicate_warning imgName
                    else [])\<rparr>)"
  using assms
  by (cases append'; cases catalog; cases functionCompatible; cases icon;
      cases "imgName \<in> set old_index")
     (simp_all add: write_image_def out_write_def py_print_def Let_def written_def
        record_writes_def prologue_writes_def duplicate_warning_def)

lemma img2py_unfold:
  "img2py codec tfname image_file python_file append' maskClr imgName icon catalog
     functionCompatible functionCompatibile w =
   (case convert_and_encode codec tfname image_file maskClr w of
      (Inl e, w) \<Rightarrow> (Some e, w)
    | (Inr None, w) \<Rightarrow> (None, w)
    | (Inr (Some data), w) \<Rightarrow>
        (case reconcile_catalog python_file append' catalog w of
           (Inl e, w) \<Rightarrow> (Some e, w)
         | (Inr old_index, w) \<Rightarrow>
             (case write_image (if python_file = ''-'' then Stdout else File python_file)
                     (logical_name image_file imgName) data append' icon catalog
                     (effective_compatible functionCompatible functionCompatibile) old_index
                     (let w = (if imgName = []
                               then py_print (name_warning (logical_name image_file imgName)) w
                               else w)
                      in if python_file = ''-'' then w else open_file python_file append' w) of
                (Inl e, w) \<Rightarrow> (Some e, w)
              | (Inr old_index, w) \<Rightarrow>
                  (None,
                   py_print (summary_line image_file (logical_name image_file imgName)
                               python_file maskClr) w))))"
proof (cases "convert_and_encode codec tfname image_file maskClr w")
  case (Pair r w1)
  show ?thesis
  proof (cases r)
    case (Inl e)
    then show ?thesis by (simp add: img2py_def Pair)
  next
    case (Inr payload)
    show ?thesis
    proof (cases payload)
      case None
      then show ?thesis by (simp add: img2py_def Pair Inr)
    next
      case (Some data)
      obtain r2 w2 where rec: "reconcile_catalog python_file append' catalog w1 = (r2, w2)"
        by (cases "reconcile_catalog python_file append' catalog w1")
      show ?thesis
      proof (cases r2)
        case (Inl e)
        then show ?thesis by (simp add: img2py_def Pair Inr Some rec)
      next
        case old_index: (Inr old_index)
        let ?fc = "effective_compatible functionCompatible functionCompatibile"
        let ?n = "logical_name image_file imgName"
        let ?w3 = "if imgName = [] then py_print (name_warning ?n) w2 else w2"
        let ?out = "if python_file = ''-'' then Stdout else File python_file"
        let ?w4 = "if python_file = ''-'' then ?w3 else open_file python_file append' ?w3"
        obtain r3 w5 where wi:
          "write_image ?out ?n data append' icon catalog ?fc old_index ?w4 = (r3, w5)"
          by (cases "write_image ?out ?n data append' icon catalog ?fc old_index ?w4")
        have lhs: "img2py codec tfname image_file python_file append' maskClr imgName icon
                     catalog functionCompatible functionCompatibile w
                   = (case r3 of
                        Inl e \<Rightarrow> (Some e, w5)
                      | Inr x \<Rightarrow> (None, py_print (summary_line image_file ?n python_file maskClr) w5))"
          using wi rec
          by (cases "imgName = []"; cases "python_file = ''-''"; cases r3)
             (simp_all add: img2py_def Pair Inr Some old_index Let_def
                effective_compatible_def [symmetric] logical_name_def name_warning_def
                summary_line_def)
        show ?thesis
          unfolding lhs using wi
          by (cases r3) (simp_all add: Pair Inr Some rec old_index Let_def)
      qed
    qed
  qed
qed

lemma reconcile_catalog_scan:
  assumes "files w p = Some bytes" and "decode w bytes = Some old" and "p \<noteq> ''-''"
  shows "reconcile_catalog p True True w
         = (Inr (snd (scan_artifact old)),
            w\<lparr>files := (files w)(p \<mapsto>
                 bytes @ (if fst (scan_artifact old) then written (encode w) scaffolding_writes else []))\<rparr>)"
  using assms
  by (cases "scan_artifact old")
     (simp add: reconcile_catalog_def out_write_def scaffolding_writes_def written_def
        map_upd_triv)

lemma img2py_overwrite_file:
  assumes conv: "convert_and_encode codec tfname image_file maskClr w = (Inr (Some data), w1)"
    and target: "python_file \<noteq> ''-''"
    and name: "replace_non_alphanumeric_with_underscore (logical_name image_file imgName)
                 = Inr varName"
  shows "img2py codec tfname image_file python_file False maskClr imgName icon catalog
           functionCompatible functionCompatibile w
         = (None,
            w1\<lparr>files := (files w1)(python_file \<mapsto>
                   written (encode w1)
                     (separator_line # prologue_writes (argv0 w1) catalog @
                      record_writes varName (logical_name image_file imgName) data icon catalog
                        (effective_compatible functionCompatible functionCompatibile))),
                stdout := stdout w1 @
                   (if imgName = [] then name_warning (logical_name image_file imgName) @ [LF]
                    else []) @
                   summary_line image_file (logical_name image_file imgName) python_file maskClr @
                   [LF]\<rparr>)"
  using target
  by (simp add: img2py_unfold conv reconcile_catalog_def open_file_def
        write_image_file [OF name] py_print_def Let_def)

lemma img2py_append_file:
  assumes conv: "convert_and_encode codec tfname image_file maskClr w = (Inr (Some data), w1)"
    and target: "python_file \<noteq> ''-''"
    and name: "replace_non_alphanumeric_with_underscore (logical_name image_file imgName)
                 = Inr varName"
    and old: "files w1 python_file = Some bytes"
    and readable: "catalog \<Longrightarrow> decode w1 bytes = Some old"
  shows "img2py codec tfname image_file python_file True maskClr imgName icon catalog
           functionCompatible functionCompatibile w
         = (None,
            w1\<lparr>files := (files w1)(python_file \<mapsto>
                   bytes @ written (encode w1)
                     ((if catalog \<and> fst (scan_artifact old) then scaffolding_writes else []) @
                      separator_line #
                      record_writes varName (logical_name image_file imgName) data icon catalog
                        (effective_compatible functionCompatible functionCompatibile))),
                stdout := stdout w1 @
                   (if imgName = [] then name_warning (logical_name image_file imgName) @ [LF]
                    else []) @
                   (if catalog \<and> logical_name image_file imgName \<in> set (snd (scan_artifact old))
                    then duplicate_warning (logical_name image_file imgName) else []) @
                   summary_line image_file (logical_name image_file imgName) python_file maskClr @
                   [LF]\<rparr>)"
proof (cases catalog)
  case True
  show ?thesis
    using target old
    by (simp add: img2py_unfold conv True reconcile_catalog_scan [OF old readable [OF True] target]
          open_file_def write_image_file [OF name] py_print_def Let_def written_append
          written_Nil)
next
  case False
  show ?thesis
    using target old
    by (simp add: img2py_unfold conv False reconcile_catalog_def open_file_def
          write_image_file [OF name] py_print_def Let_def)
qed

lemma img2py_missing_file:
  assumes conv: "convert_and_encode codec tfname image_file maskClr w = (Inr (Some data), w1)"
    and target: "python_file \<noteq> ''-''"
    and missing: "files w1 python_file = None"
  shows "img2py codec tfname image_file python_file True maskClr imgName icon True
           functionCompatible functionCompatibile w = (Some FileNotFoundError, w1)"
  using target by (simp add: img2py_unfold conv reconcile_catalog_def missing)

lemma img2py_undecodable_file:
  assumes conv: "convert_and_encode codec tfname image_file maskClr w = (Inr (Some data), w1)"
    and target: "python_file \<noteq> ''-''"
    and old: "files w1 python_file = Some bytes" "decode w1 bytes = None"
  shows "img2py codec tfname image_file python_file True maskClr imgName icon True
           functionCompatible functionCompatibile w = (Some UnicodeDecodeError, w1)"
  using target by (simp add: img2py_unfold conv reconcile_catalog_def old)

subsection \<open>The net effect of \<^verbatim>\<open>img2py\<close>\<close>

text \<open>
  An image that already has the extension \<^verbatim>\<open>.png\<close> goes through the fast path: the payload
  is computed from its bytes, whatever the codec is, and the conversion phase leaves the
  world as it found it.
\<close>

lemma fast_path_payload:
  assumes "endswith (str_upper w image_file) (str_upper w ''.png'')"
    and "files w image_file = Some bytes"
    and "files w tfname = None" and "tfname \<noteq> []"
    and "\<not> same_file w tfname image_file"
  shows "convert_and_encode codec tfname image_file None w = (Inr (Some (encode_payload bytes)), w)"
proof -
  have differ: "tfname \<noteq> image_file"
    using assms(2,3) by auto
  have "(files w)(tfname := None) = files w"
    using assms(3) by (auto simp: fun_eq_iff)
  then show ?thesis
    using assms differ
    by (simp add: convert_and_encode_def convert_def newname_of_def Let_def)
qed

lemma example_world_fast_path:
  assumes "files example_world image_file = Some bytes"
    and "endswith (ascii_upper image_file) (ascii_upper ''.png'')"
  shows "convert_and_encode codec ''/tmp/t'' image_file None
           (example_world\<lparr>files := (files example_world)(''out.py'' := artifact)\<rparr>)
         = (Inr (Some (encode_payload bytes)),
            example_world\<lparr>files := (files example_world)(''out.py'' := artifact)\<rparr>)"
proof -
  have "image_file \<noteq> ''out.py''"
    using assms(1) by (auto simp: example_world_def split: if_splits)
  then show ?thesis
    using assms by (intro fast_path_payload) (simp_all add: example_world_def)
qed

lemma example_extensions:
  "endswith (ascii_upper ''logo.png'') (ascii_upper ''.png'')"
  "endswith (ascii_upper ''empty.png'') (ascii_upper ''.png'')"
  by code_simp+

lemma example_names:
  "replace_non_alphanumeric_with_underscore ''a'' = Inr ''a''"
  "replace_non_alphanumeric_with_underscore ''b'' = Inr ''b''"
  "replace_non_alphanumeric_with_underscore ''logo'' = Inr ''logo''"
  "replace_non_alphanumeric_with_underscore ''empty'' = Inr ''empty''"
  by code_simp+

lemma example_world_env:
  "encode example_world = (\<lambda>s. s)" "argv0 example_world = ''img2py.py''"
  "decode example_world = Some" "stdout example_world = []"
  by (simp_all add: example_world_def)

lemma payload_lines_empty: "payload_lines [] [] = []"
  by (simp add: payload_lines.simps)

subsection \<open>The payload of an empty image\<close>

text \<open>
  C5 says that encoding the empty byte sequence yields a payload of one chunk that bears
  the closing parenthesis. The loop \<^verbatim>\<open>while data:\<close> is not entered when there are no
  bytes, and the parenthesis is added inside the loop only: the payload is the empty text,
  with no chunk and no parenthesis. A file \<^verbatim>\<open>empty.png\<close> of no bytes reaches this through
  the fast path of \<^verbatim>\<open>convert\<close>. The artifact then ends with \<^verbatim>\<open>empty = PyEmbeddedImage(\<close>
  and two empty lines: the call is never closed.
\<close>

theorem C5_empty_image_leaves_call_open:
  "files example_world ''empty.png'' = Some []
   \<and> encode_payload [] = []
   \<and> fst (img2py failing_codec ''/tmp/t'' ''empty.png'' ''out.py'' False None ''empty'' False
            False False None example_world) = None
   \<and> files (snd (img2py failing_codec ''/tmp/t'' ''empty.png'' ''out.py'' False None ''empty''
            False False False None example_world)) ''out.py''
       = Some (separator_line @ header_comment ''img2py.py'' @ import_statement @
               ''empty = PyEmbeddedImage('' @ [LF, LF, LF])"
proof -
  have src: "files example_world ''empty.png'' = Some []"
    by (simp add: example_world_def)
  have payload: "encode_payload [] = []"
    by (simp add: encode_payload_def payload_lines_empty)
  have conv: "convert_and_encode failing_codec ''/tmp/t'' ''empty.png'' None example_world
                = (Inr (Some []), example_world)"
    using example_world_fast_path [OF src example_extensions(2), of failing_codec None] payload
    by (simp add: example_world_def)
  have name: "replace_non_alphanumeric_with_underscore (logical_name ''empty.png'' ''empty'')
                = Inr ''empty''"
    by (simp add: logical_name_def example_names)
  show ?thesis
    using src payload
    by (simp add: img2py_overwrite_file [OF conv _ name] written_def prologue_writes_def
          record_writes_def assignment_def effective_compatible_def logical_name_def
          example_world_env)
qed



subsection \<open>The prologue of a fresh artifact\<close>




subsection \<open>The lines of the separator and of the scaffolding\<close>

lemma separator_rule: "separator_line = rule_text @ [LF]"
  by (simp add: separator_line_def rule_text_def)

lemma rule_text_chars:
  "sq \<notin> set rule_text" "LF \<notin> set rule_text" "CR \<notin> set rule_text" "rule_text \<noteq> []"
  "hd rule_text \<noteq> CHR '')''" "length rule_text = 71"
  by (simp_all add: rule_text_def sq_def LF_def CR_def)

lemma artifact_names_append:
  assumes var: "list_all (\<lambda>c. isalnum c \<or> c = CHR ''_'') var"
    and N: "N \<noteq> []" "LF \<notin> set N" "CR \<notin> set N"
  shows "snd (scan_artifact
                (a @ separator_line @ record_statements var N (encode_payload bytes) icon catalog fc))
         = snd (scan_artifact a) @ (if catalog then [N] else [])"
proof -
  let ?R = "record_statements var N (encode_payload bytes) icon catalog fc"
  have "List.map_filter indexPattern_match (readlines (a @ rule_text @ LF # ?R))
          = List.map_filter indexPattern_match (readlines a)
            @ List.map_filter indexPattern_match (text_lines ?R)"
    using rule_text_chars record_no_CR [OF var N(3)]
    by (intro names_after_append) simp_all
  then show ?thesis
    by (simp add: scan_artifact_eq separator_rule record_names [OF var N(1,2)])
qed

lemma artifact_marker_count_append:
  assumes var: "list_all (\<lambda>c. isalnum c \<or> c = CHR ''_'') var"
    and N: "LF \<notin> set N" "CR \<notin> set N"
  shows "count_list (readlines
                (a @ separator_line @ record_statements var N (encode_payload bytes) icon catalog fc))
           catalog_initializer
         = count_list (readlines a) catalog_initializer"
proof -
  let ?R = "record_statements var N (encode_payload bytes) icon catalog fc"
  have long: "\<And>p. p @ rule_text @ [LF] \<noteq> catalog_initializer"
  proof
    fix p
    assume "p @ rule_text @ [LF] = catalog_initializer"
    then have "length (p @ rule_text @ [LF]) = length catalog_initializer"
      by simp
    then show False
      by (simp add: rule_text_chars catalog_initializer_def)
  qed
  have "catalog_initializer \<notin> set (text_lines ?R)"
    by (rule record_lacks_line [OF var N(1)])
       (simp_all add: catalog_initializer_def sq_def LF_def)
  then have none: "count_list (text_lines ?R) catalog_initializer = 0"
    by (simp add: count_list_0_iff)
  have "count_list (readlines (a @ rule_text @ LF # ?R)) catalog_initializer
          = count_list (readlines a) catalog_initializer
            + count_list (text_lines ?R) catalog_initializer"
    using rule_text_chars record_no_CR [OF var N(2)] long
    by (intro count_after_append) (simp_all add: catalog_initializer_def)
  then show ?thesis
    by (simp add: separator_rule none)
qed

lemma catalog_banner_text: "catalog_banner = LF # banner_text"
  by (simp add: banner_text_def catalog_banner_def)

lemma banner_text_chars:
  "sq \<notin> set banner_text" "LF \<notin> set banner_text" "CR \<notin> set banner_text"
  "hd banner_text = CHR ''#''" "banner_text \<noteq> []"
  by (simp_all add: banner_text_def catalog_banner_def sq_def LF_def CR_def)

lemma scaffolding_block_rest: "scaffolding_block = LF # scaffolding_rest"
  by (simp add: scaffolding_block_def scaffolding_rest_def catalog_banner_text)

lemma text_lines_catalog_initializer:
  "text_lines (catalog_initializer @ rest) = catalog_initializer # text_lines rest"
  using text_lines_line [of "''catalog = {}''" rest]
  by (simp add: catalog_initializer_def LF_def)

lemma text_lines_index_initializer:
  "text_lines (index_initializer @ rest) = (''index = []'' @ [LF]) # [LF] # text_lines rest"
  using text_lines_line [of "''index = []''" "LF # rest"] text_lines_line [of "[]" rest]
  by (simp add: index_initializer_def LF_def)

lemma text_lines_separator:
  "text_lines (separator_line @ rest) = separator_line # text_lines rest"
  using text_lines_line [of rule_text rest] rule_text_chars(2)
  by (simp add: separator_rule)

lemma text_lines_scaffolding_rest:
  "text_lines (scaffolding_rest @ rest)
     = [banner_text @ [LF], [LF], catalog_initializer, ''index = []'' @ [LF], [LF]]
       @ text_lines rest"
proof -
  have "text_lines (banner_text @ LF # (LF # catalog_initializer @ index_initializer @ rest))
          = (banner_text @ [LF])
            # text_lines (LF # catalog_initializer @ index_initializer @ rest)"
    by (rule text_lines_line) (rule banner_text_chars(2))
  then show ?thesis
    by (simp add: scaffolding_rest_def text_lines_catalog_initializer
          text_lines_index_initializer)
qed

lemma scaffolding_rest_no_CR: "CR \<notin> set scaffolding_rest"
  using banner_text_chars(3)
  by (simp add: scaffolding_rest_def catalog_initializer_def index_initializer_def
        CR_def LF_def)

lemma separator_no_CR: "CR \<notin> set separator_line"
  using rule_text_chars(3) by (simp add: separator_rule CR_def LF_def)

lemma scaffolding_names:
  "List.map_filter indexPattern_match
     [banner_text @ [LF], [LF], catalog_initializer, ''index = []'' @ [LF], [LF], separator_line]
   = []"
proof -
  have "indexPattern_match (banner_text @ [LF]) = None"
    using banner_text_chars(1) by (intro indexPattern_needs_quote) (simp add: sq_def LF_def)
  moreover have "indexPattern_match [LF] = None"
    by (intro indexPattern_needs_quote) (simp add: sq_def LF_def)
  moreover have "indexPattern_match catalog_initializer = None"
    by (intro indexPattern_needs_quote) (simp add: catalog_initializer_def sq_def LF_def)
  moreover have "indexPattern_match (''index = []'' @ [LF]) = None"
    by (intro indexPattern_needs_quote) (simp add: sq_def LF_def)
  moreover have "indexPattern_match separator_line = None"
    using rule_text_chars(1)
    by (intro indexPattern_needs_quote) (simp add: separator_rule sq_def LF_def)
  ultimately show ?thesis
    by (simp add: List.map_filter_simps)
qed

lemma artifact_names_scaffold_append:
  assumes var: "list_all (\<lambda>c. isalnum c \<or> c = CHR ''_'') var"
    and N: "N \<noteq> []" "LF \<notin> set N" "CR \<notin> set N"
  shows "snd (scan_artifact
                (a @ scaffolding_block @ separator_line
                   @ record_statements var N (encode_payload bytes) icon catalog fc))
         = snd (scan_artifact a) @ (if catalog then [N] else [])"
proof -
  let ?R = "record_statements var N (encode_payload bytes) icon catalog fc"
  let ?T = "scaffolding_rest @ separator_line @ ?R"
  have cr: "CR \<notin> set ?T"
    using scaffolding_rest_no_CR separator_no_CR record_no_CR [OF var N(3)] by simp
  have "List.map_filter indexPattern_match (readlines (a @ [] @ LF # ?T))
          = List.map_filter indexPattern_match (readlines a)
            @ List.map_filter indexPattern_match (text_lines ?T)"
    using cr by (intro names_after_append) simp_all
  moreover have tl: "text_lines ?T
          = [banner_text @ [LF], [LF], catalog_initializer, ''index = []'' @ [LF], [LF],
             separator_line] @ text_lines ?R"
    by (simp add: text_lines_scaffolding_rest text_lines_separator)
  have "List.map_filter indexPattern_match (text_lines ?T) = (if catalog then [N] else [])"
    unfolding tl map_filter_append' scaffolding_names record_names [OF var N(1,2)]
    by simp
  ultimately show ?thesis
    by (simp add: scan_artifact_eq scaffolding_block_rest)
qed

lemma scaffold_marker_count:
  assumes var: "list_all (\<lambda>c. isalnum c \<or> c = CHR ''_'') var"
    and N: "LF \<notin> set N" "CR \<notin> set N"
  shows "count_list (readlines (scaffolding_block @ separator_line
                       @ record_statements var N (encode_payload bytes) icon catalog fc))
           catalog_initializer = 1"
proof -
  let ?R = "record_statements var N (encode_payload bytes) icon catalog fc"
  let ?T = "scaffolding_block @ separator_line @ ?R"
  have "CR \<notin> set ?T"
    using scaffolding_rest_no_CR separator_no_CR record_no_CR [OF var N(2)]
    by (simp add: scaffolding_block_rest CR_def LF_def)
  then have "readlines ?T = text_lines ?T"
    by (simp add: readlines_def universal_newlines_id)
  also have "\<dots> = [LF] # text_lines (scaffolding_rest @ separator_line @ ?R)"
    using text_lines_line [of "[]" "scaffolding_rest @ separator_line @ ?R"]
    by (simp add: scaffolding_block_rest)
  also have "text_lines (scaffolding_rest @ separator_line @ ?R)
               = [banner_text @ [LF], [LF], catalog_initializer, ''index = []'' @ [LF], [LF],
                  separator_line] @ text_lines ?R"
    by (simp add: text_lines_scaffolding_rest text_lines_separator)
  finally have lines: "readlines ?T
      = [LF] # [banner_text @ [LF], [LF], catalog_initializer, ''index = []'' @ [LF], [LF],
                separator_line] @ text_lines ?R" .
  have "catalog_initializer \<notin> set (text_lines ?R)"
    by (rule record_lacks_line [OF var N(1)])
       (simp_all add: catalog_initializer_def sq_def LF_def)
  then have none: "count_list (text_lines ?R) catalog_initializer = 0"
    by (simp add: count_list_0_iff)
  have banner: "banner_text @ [LF] \<noteq> catalog_initializer"
  proof
    assume "banner_text @ [LF] = catalog_initializer"
    then have "hd (banner_text @ [LF]) = hd catalog_initializer"
      by simp
    then show False
      using banner_text_chars(4,5) by (simp add: catalog_initializer_def)
  qed
  have sep: "separator_line \<noteq> catalog_initializer"
    by (simp add: separator_line_def catalog_initializer_def)
  have other: "[LF] \<noteq> catalog_initializer" "''index = []'' @ [LF] \<noteq> catalog_initializer"
    by (simp_all add: catalog_initializer_def)
  show ?thesis
    unfolding lines using none banner sep other by simp
qed

lemma count_pos_member: "count_list xs x = Suc n \<Longrightarrow> x \<in> set xs"
  by (metis count_list_0_iff nat.distinct(1))

subsection \<open>The text of the artifact after an append\<close>

lemma convert_and_encode_payload:
  assumes "convert_and_encode codec tfname image_file maskClr w = (Inr (Some data), w1)"
  shows "\<exists>bytes. data = encode_payload bytes"
proof -
  let ?w0 = "w\<lparr>files := (files w)(tfname \<mapsto> [])\<rparr>"
  obtain r' w' where conv:
    "convert codec image_file maskClr None tfname BITMAP_TYPE_PNG ''.png'' ?w0 = (r', w')"
    by (cases "convert codec image_file maskClr None tfname BITMAP_TYPE_PNG ''.png'' ?w0")
  show ?thesis
    using assms
    by (auto simp: convert_and_encode_def conv split: sum.splits if_splits option.splits)
qed

lemma img2py_appends_record:
  assumes conv: "convert_and_encode codec tfname image_file maskClr w = (Inr (Some data), w1)"
    and target: "python_file \<noteq> ''-''"
    and name: "replace_non_alphanumeric_with_underscore (logical_name image_file imgName)
                 = Inr varName"
    and codec: "text_codec w1"
    and old: "artifact_text w1 python_file = Some old"
  shows "fst (img2py codec tfname image_file python_file True maskClr imgName icon catalog
                functionCompatible functionCompatibile w) = None"
    and "artifact_text
           (snd (img2py codec tfname image_file python_file True maskClr imgName icon catalog
                   functionCompatible functionCompatibile w)) python_file
         = Some (old @
                 (if catalog \<and> catalog_initializer \<notin> set (readlines old)
                  then scaffolding_block else []) @
                 separator_line @
                 record_statements varName (logical_name image_file imgName) data icon catalog
                   (effective_compatible functionCompatible functionCompatibile))"
proof -
  obtain bytes where bytes: "files w1 python_file = Some bytes" "decode w1 bytes = Some old"
    using old by (auto simp: artifact_text_def split: option.splits)
  let ?texts = "(if catalog \<and> fst (scan_artifact old) then scaffolding_writes else []) @
                separator_line #
                record_writes varName (logical_name image_file imgName) data icon catalog
                  (effective_compatible functionCompatible functionCompatibile)"
  note run = img2py_append_file [OF conv target name bytes(1), of catalog old icon
      functionCompatible functionCompatibile, OF bytes(2)]
  show "fst (img2py codec tfname image_file python_file True maskClr imgName icon catalog
                functionCompatible functionCompatibile w) = None"
    by (simp add: run)
  have flat: "concat ?texts
      = (if catalog \<and> catalog_initializer \<notin> set (readlines old)
         then scaffolding_block else []) @
        separator_line @
        record_statements varName (logical_name image_file imgName) data icon catalog
          (effective_compatible functionCompatible functionCompatibile)"
    by (cases "catalog \<and> catalog_initializer \<notin> set (readlines old)")
       (auto simp: scan_artifact_eq concat_record_writes concat_scaffolding_writes)
  have "decode w1 (bytes @ written (encode w1) ?texts) = Some (old @ concat ?texts)"
    by (rule decode_written [OF codec bytes(2)])
  then show "artifact_text
           (snd (img2py codec tfname image_file python_file True maskClr imgName icon catalog
                   functionCompatible functionCompatibile w)) python_file
         = Some (old @
                 (if catalog \<and> catalog_initializer \<notin> set (readlines old)
                  then scaffolding_block else []) @
                 separator_line @
                 record_statements varName (logical_name image_file imgName) data icon catalog
                   (effective_compatible functionCompatible functionCompatibile))"
    unfolding flat by (simp add: run artifact_text_def)
qed

subsection \<open>The names a later scan finds\<close>

lemma sanitized_exists:
  assumes "N \<noteq> []"
  shows "\<exists>var. replace_non_alphanumeric_with_underscore N = Inr var"
  using assms
  by (cases N)
     (simp_all add: replace_non_alphanumeric_with_underscore_def replace_non_alphanumeric_def
        Let_def)

lemma appended_names:
  assumes name: "replace_non_alphanumeric_with_underscore N = Inr var"
    and N: "LF \<notin> set N" "CR \<notin> set N"
  shows "snd (scan_artifact
                (old @ (if scaffold then scaffolding_block else []) @ separator_line @
                 record_statements var N (encode_payload bytes) icon catalog fc))
         = snd (scan_artifact old) @ (if catalog then [N] else [])"
proof -
  note s = sanitized_name [OF name]
  show ?thesis
    using artifact_names_append [OF s(2) s(1) N, of old bytes icon catalog fc]
      artifact_names_scaffold_append [OF s(2) s(1) N, of old bytes icon catalog fc]
    by (cases scaffold) simp_all
qed

lemma img2py_appends_name:
  assumes conv: "convert_and_encode codec tfname image_file maskClr w = (Inr (Some data), w1)"
    and target: "python_file \<noteq> ''-''"
    and codec: "text_codec w1"
    and names: "known_names w1 python_file = Some names"
    and N: "logical_name image_file imgName \<noteq> []" "LF \<notin> set (logical_name image_file imgName)"
      "CR \<notin> set (logical_name image_file imgName)"
  shows "known_names
           (snd (img2py codec tfname image_file python_file True maskClr imgName icon catalog
                   functionCompatible functionCompatibile w)) python_file
         = Some (names @ (if catalog then [logical_name image_file imgName] else []))"
proof -
  obtain var where name:
    "replace_non_alphanumeric_with_underscore (logical_name image_file imgName) = Inr var"
    using sanitized_exists [OF N(1)] by blast
  obtain old where old: "artifact_text w1 python_file = Some old"
    and scan: "snd (scan_artifact old) = names"
    using names by (auto simp: known_names_def)
  obtain bytes where data: "data = encode_payload bytes"
    using convert_and_encode_payload [OF conv] by blast
  show ?thesis
    using appended_names [OF name N(2,3), of old _ bytes icon catalog] scan
    by (simp add: known_names_def
          img2py_appends_record(2) [OF conv target name codec old] data)
qed

text \<open>
  C10, as stated, covers every name without a single quote and without a newline. A name
  with a carriage return in it, \<^verbatim>\<open>"a\rb"\<close>, has neither. The emitter writes
  \<^verbatim>\<open>index.append('a\rb')\<close> on one line; the next run reads the artifact in text mode, where a
  carriage return ends a line, gets the two lines \<^verbatim>\<open>index.append('a\<close> and \<^verbatim>\<open>b')\<close>, and the
  pattern matches neither: the name is written and never becomes a known name.
\<close>

theorem C10_carriage_return_splits_line:
  "sq \<notin> set [CHR ''a'', CR, CHR ''b''] \<and> LF \<notin> set [CHR ''a'', CR, CHR ''b'']
   \<and> readlines (index_append [CHR ''a'', CR, CHR ''b''])
       = [''index.append('' @ [sq] @ ''a'' @ [LF], ''b'' @ [sq] @ '')'' @ [LF]]
   \<and> indexPattern_match (''index.append('' @ [sq] @ ''a'' @ [LF]) = None
   \<and> indexPattern_match (''b'' @ [sq] @ '')'' @ [LF]) = None
   \<and> known_names (example_world\<lparr>files := (files example_world)(''out.py'' \<mapsto> [])\<rparr>) ''out.py''
       = Some []
   \<and> fst (img2py failing_codec ''/tmp/t'' ''logo.png'' ''out.py'' True None
            [CHR ''a'', CR, CHR ''b''] False True False None
            (example_world\<lparr>files := (files example_world)(''out.py'' \<mapsto> [])\<rparr>)) = None
   \<and> known_names
         (snd (img2py failing_codec ''/tmp/t'' ''logo.png'' ''out.py'' True None
                 [CHR ''a'', CR, CHR ''b''] False True False None
                 (example_world\<lparr>files := (files example_world)(''out.py'' \<mapsto> [])\<rparr>)))
         ''out.py''
       = Some []"
proof -
  let ?w = "example_world\<lparr>files := (files example_world)(''out.py'' \<mapsto> [])\<rparr>"
  let ?N = "[CHR ''a'', CR, CHR ''b'']"
  have src: "files example_world ''logo.png'' = Some ''PNG bytes''"
    by (simp add: example_world_def)
  have conv: "convert_and_encode failing_codec ''/tmp/t'' ''logo.png'' None ?w
                = (Inr (Some (encode_payload ''PNG bytes'')), ?w)"
    using example_world_fast_path [OF src example_extensions(1), of failing_codec "Some []"]
    by simp
  have name: "replace_non_alphanumeric_with_underscore (logical_name ''logo.png'' ?N)
                = Inr ''a_b''"
    unfolding logical_name_def by code_simp
  have old: "files ?w ''out.py'' = Some []" and readable: "decode ?w [] = Some []"
    by (simp_all add: example_world_env)
  have pure: "sq \<notin> set ?N \<and> LF \<notin> set ?N
     \<and> readlines (index_append ?N)
         = [''index.append('' @ [sq] @ ''a'' @ [LF], ''b'' @ [sq] @ '')'' @ [LF]]
     \<and> indexPattern_match (''index.append('' @ [sq] @ ''a'' @ [LF]) = None
     \<and> indexPattern_match (''b'' @ [sq] @ '')'' @ [LF]) = None
     \<and> scan_artifact [] = (True, [])"
    by code_simp
  have after: "snd (scan_artifact
                 (scaffolding_block @ separator_line @
                  record_statements ''a_b'' ?N (encode_payload ''PNG bytes'') False True False))
               = []"
    by code_simp
  have run: "img2py failing_codec ''/tmp/t'' ''logo.png'' ''out.py'' True None ?N False True
               False None ?w
             = (None,
                ?w\<lparr>files := (files ?w)(''out.py'' \<mapsto>
                       scaffolding_block @ separator_line @
                       record_statements ''a_b'' ?N (encode_payload ''PNG bytes'') False True False),
                    stdout := summary_line ''logo.png'' ?N ''out.py'' None @ [LF]\<rparr>)"
    using pure
    by (simp add: img2py_append_file [OF conv _ name old readable] written_def
          concat_record_writes concat_scaffolding_writes effective_compatible_def
          logical_name_def example_world_env)
  show ?thesis
    using pure after
    by (simp add: run known_names_def artifact_text_def example_world_env)
qed

text \<open>
  C10, amended: the logical name is not empty and has no line feed and no carriage return
  in it (a single quote does no harm: the group of the pattern is greedy). Then the pattern
  extracts the name from the line the emitter writes for it, and after a run in append mode
  with the catalog the known names of the artifact are those it had, in their order, and
  the new name after them. The artifact is a text in the encoding of the run, and the
  encoding is one in which appended text is read back (\<open>text_codec\<close>).
\<close>

theorem C10_written_name_is_scanned:
  assumes "convert_and_encode codec tfname image_file maskClr w = (Inr (Some data), w1)"
    and "python_file \<noteq> ''-''"
    and "text_codec w1"
    and "known_names w1 python_file = Some names"
    and "logical_name image_file imgName \<noteq> []"
    and "LF \<notin> set (logical_name image_file imgName)"
    and "CR \<notin> set (logical_name image_file imgName)"
  shows "indexPattern_match (index_append (logical_name image_file imgName))
           = Some (logical_name image_file imgName)
         \<and> fst (img2py codec tfname image_file python_file True maskClr imgName icon True
                  functionCompatible functionCompatibile w) = None
         \<and> known_names
               (snd (img2py codec tfname image_file python_file True maskClr imgName icon True
                       functionCompatible functionCompatibile w)) python_file
             = Some (names @ [logical_name image_file imgName])"
proof -
  obtain var where name:
    "replace_non_alphanumeric_with_underscore (logical_name image_file imgName) = Inr var"
    using sanitized_exists [OF assms(5)] by blast
  obtain old where old: "artifact_text w1 python_file = Some old"
    using assms(4) by (auto simp: known_names_def)
  show ?thesis
    using indexPattern_index_append [OF assms(5,6)]
      img2py_appends_record(1) [OF assms(1,2) name assms(3) old]
      img2py_appends_name [OF assms, of icon True functionCompatible functionCompatibile]
    by simp
qed

lemma example_world_codec:
  "text_codec (example_world\<lparr>files := fs\<rparr>)"
  by (simp add: text_codec_def example_world_env)

theorem C10_written_name_is_scanned_witness:
  "convert_and_encode failing_codec ''/tmp/t'' ''logo.png'' None
       (example_world\<lparr>files := (files example_world)(''out.py'' \<mapsto> index_append ''first'')\<rparr>)
     = (Inr (Some (encode_payload ''PNG bytes'')),
        example_world\<lparr>files := (files example_world)(''out.py'' \<mapsto> index_append ''first'')\<rparr>)
   \<and> ''out.py'' \<noteq> ''-''
   \<and> text_codec (example_world\<lparr>files := (files example_world)(''out.py'' \<mapsto> index_append ''first'')\<rparr>)
   \<and> known_names
         (example_world\<lparr>files := (files example_world)(''out.py'' \<mapsto> index_append ''first'')\<rparr>)
         ''out.py'' = Some [''first'']
   \<and> logical_name ''logo.png'' [CHR ''i'', CHR ''t'', sq, CHR ''s''] = [CHR ''i'', CHR ''t'', sq, CHR ''s'']
   \<and> [CHR ''i'', CHR ''t'', sq, CHR ''s''] \<noteq> []
   \<and> LF \<notin> set [CHR ''i'', CHR ''t'', sq, CHR ''s'']
   \<and> CR \<notin> set [CHR ''i'', CHR ''t'', sq, CHR ''s'']
   \<and> indexPattern_match (index_append [CHR ''i'', CHR ''t'', sq, CHR ''s''])
       = Some [CHR ''i'', CHR ''t'', sq, CHR ''s'']
   \<and> known_names
         (snd (img2py failing_codec ''/tmp/t'' ''logo.png'' ''out.py'' True None
                 [CHR ''i'', CHR ''t'', sq, CHR ''s''] False True False None
                 (example_world\<lparr>files := (files example_world)(''out.py'' \<mapsto> index_append ''first'')\<rparr>)))
         ''out.py''
       = Some [''first'', [CHR ''i'', CHR ''t'', sq, CHR ''s'']]"
proof -
  let ?w = "example_world\<lparr>files := (files example_world)(''out.py'' \<mapsto> index_append ''first'')\<rparr>"
  let ?N = "[CHR ''i'', CHR ''t'', sq, CHR ''s'']"
  have src: "files example_world ''logo.png'' = Some ''PNG bytes''"
    by (simp add: example_world_def)
  have conv: "convert_and_encode failing_codec ''/tmp/t'' ''logo.png'' None ?w
                = (Inr (Some (encode_payload ''PNG bytes'')), ?w)"
    using example_world_fast_path [OF src example_extensions(1), of failing_codec
        "Some (index_append ''first'')"]
    by simp
  have scan: "snd (scan_artifact (index_append ''first'')) = [''first'']"
    by code_simp
  have names: "known_names ?w ''out.py'' = Some [''first'']"
    using scan by (simp add: known_names_def artifact_text_def example_world_env)
  have N: "logical_name ''logo.png'' ?N = ?N" "?N \<noteq> []" "LF \<notin> set ?N" "CR \<notin> set ?N"
    by (simp_all add: logical_name_def LF_def CR_def sq_def)
  have target: "''out.py'' \<noteq> ''-''"
    by simp
  show ?thesis
    using C10_written_name_is_scanned [OF conv target example_world_codec names,
        where imgName = ?N and icon = False and functionCompatible = False
          and functionCompatibile = None] conv names N
      example_world_codec [of "(files example_world)(''out.py'' \<mapsto> index_append ''first'')"]
    by simp
qed

subsection \<open>Scaffolding is written once\<close>

lemma scaffolded_world_env:
  "files scaffolded_world ''out.py'' = Some (catalog_initializer @ index_initializer)"
  "decode scaffolded_world = Some" "encode scaffolded_world = (\<lambda>s. s)"
  "stdout scaffolded_world = []"
  by (simp_all add: scaffolded_world_def example_world_env)

lemma scaffolded_world_run:
  assumes "replace_non_alphanumeric_with_underscore imgName = Inr varName" and "imgName \<noteq> []"
  shows "img2py failing_codec ''/tmp/t'' ''logo.png'' ''out.py'' True None imgName False True
           False None scaffolded_world
         = (None,
            scaffolded_world
            \<lparr>files := (files scaffolded_world)(''out.py'' \<mapsto>
                 catalog_initializer @ index_initializer @
                 written (\<lambda>s. s)
                   ((if fst (scan_artifact (catalog_initializer @ index_initializer))
                     then scaffolding_writes else []) @
                    separator_line #
                    record_writes varName imgName (encode_payload ''PNG bytes'') False True False)),
              stdout :=
                (if imgName \<in> set (snd (scan_artifact (catalog_initializer @ index_initializer)))
                 then duplicate_warning imgName else []) @
                summary_line ''logo.png'' imgName ''out.py'' None @ [LF]\<rparr>)"
proof -
  have src: "files example_world ''logo.png'' = Some ''PNG bytes''"
    by (simp add: example_world_def)
  have conv: "convert_and_encode failing_codec ''/tmp/t'' ''logo.png'' None scaffolded_world
                = (Inr (Some (encode_payload ''PNG bytes'')), scaffolded_world)"
    unfolding scaffolded_world_def
    using example_world_fast_path [OF src example_extensions(1), of failing_codec
        "Some (catalog_initializer @ index_initializer)"]
    by simp
  have name: "replace_non_alphanumeric_with_underscore (logical_name ''logo.png'' imgName)
                = Inr varName"
    using assms by (simp add: logical_name_def)
  have old: "files scaffolded_world ''out.py'' = Some (catalog_initializer @ index_initializer)"
    and readable: "decode scaffolded_world (catalog_initializer @ index_initializer)
                     = Some (catalog_initializer @ index_initializer)"
    by (simp_all add: scaffolded_world_def example_world_env)
  have env: "encode scaffolded_world = (\<lambda>s. s)" "stdout scaffolded_world = []"
    by (simp_all add: scaffolded_world_def example_world_env)
  show ?thesis
    using assms(2)
    by (simp add: img2py_append_file [OF conv _ name old readable] effective_compatible_def
          logical_name_def env)
qed

text \<open>
  C7, as stated, counts the scaffolding of the resulting artifact. The emitter writes the
  logical name between quotes as it is: a name that holds the line \<^verbatim>\<open>catalog = {}\<close>, such as
  \<^verbatim>\<open>"\ncatalog = {}\n"\<close>, puts that line in the artifact once with the index statement and
  once with the registration. The artifact had one marker line and has three afterwards.
\<close>

theorem C7_name_with_newline_adds_marker_lines:
  "marker_lines scaffolded_world ''out.py'' = Some 1
   \<and> fst (img2py failing_codec ''/tmp/t'' ''logo.png'' ''out.py'' True None marker_name False
            True False None scaffolded_world) = None
   \<and> marker_lines
         (snd (img2py failing_codec ''/tmp/t'' ''logo.png'' ''out.py'' True None marker_name
                 False True False None scaffolded_world)) ''out.py''
       = Some 3"
proof -
  have name: "replace_non_alphanumeric_with_underscore marker_name = Inr ''_catalog______''"
    and ne: "marker_name \<noteq> []"
    by code_simp+
  have before: "count_list (readlines (catalog_initializer @ index_initializer))
                  catalog_initializer = 1"
    and scan: "scan_artifact (catalog_initializer @ index_initializer) = (False, [])"
    by code_simp+
  have after: "count_list
                 (readlines
                    (catalog_initializer @ index_initializer @ separator_line @
                     record_statements ''_catalog______'' marker_name
                       (encode_payload ''PNG bytes'') False True False))
                 catalog_initializer = 3"
    by code_simp
  show ?thesis
    using before after
    by (simp add: scaffolded_world_run [OF name ne] scan marker_lines_def artifact_text_def
          written_def concat_record_writes scaffolded_world_env)
qed

text \<open>
  C7, amended. The artifact \<open>bytes\<close>, read as the text \<open>old\<close>, has the marker line
  \<^verbatim>\<open>catalog = {}\<close> among its lines. Then a run in append mode with the catalog adds to the
  artifact the separator line and the record, and nothing else: no banner and no
  initializer. When the logical name has no line feed and no carriage return in it, the
  artifact has as many marker lines afterwards as it had: one, if it had one.
\<close>

theorem C7_scaffolding_not_written_again:
  assumes "convert_and_encode codec tfname image_file maskClr w = (Inr (Some data), w1)"
    and "python_file \<noteq> ''-''"
    and "files w1 python_file = Some bytes"
    and "decode w1 bytes = Some old"
    and "catalog_initializer \<in> set (readlines old)"
    and "replace_non_alphanumeric_with_underscore (logical_name image_file imgName) = Inr varName"
  shows "files (snd (img2py codec tfname image_file python_file True maskClr imgName icon True
                       functionCompatible functionCompatibile w)) python_file
           = Some (bytes @
                   written (encode w1)
                     (separator_line #
                      record_writes varName (logical_name image_file imgName) data icon True
                        (effective_compatible functionCompatible functionCompatibile)))
         \<and> (text_codec w1 \<longrightarrow>
              LF \<notin> set (logical_name image_file imgName) \<longrightarrow>
              CR \<notin> set (logical_name image_file imgName) \<longrightarrow>
              marker_lines
                (snd (img2py codec tfname image_file python_file True maskClr imgName icon True
                        functionCompatible functionCompatibile w)) python_file
              = marker_lines w1 python_file)"
proof (intro conjI impI)
  have found: "\<not> fst (scan_artifact old)"
    using assms(5) by (simp add: scan_artifact_eq)
  show "files (snd (img2py codec tfname image_file python_file True maskClr imgName icon True
                       functionCompatible functionCompatibile w)) python_file
           = Some (bytes @
                   written (encode w1)
                     (separator_line #
                      record_writes varName (logical_name image_file imgName) data icon True
                        (effective_compatible functionCompatible functionCompatibile)))"
    using found
    by (simp add: img2py_append_file [OF assms(1,2,6,3), of True old, OF assms(4)])
next
  assume codec: "text_codec w1"
    and N: "LF \<notin> set (logical_name image_file imgName)"
      "CR \<notin> set (logical_name image_file imgName)"
  have old: "artifact_text w1 python_file = Some old"
    using assms(3,4) by (simp add: artifact_text_def)
  obtain payload where data: "data = encode_payload payload"
    using convert_and_encode_payload [OF assms(1)] by blast
  note s = sanitized_name [OF assms(6)]
  show "marker_lines
          (snd (img2py codec tfname image_file python_file True maskClr imgName icon True
                  functionCompatible functionCompatibile w)) python_file
        = marker_lines w1 python_file"
    using assms(5) artifact_marker_count_append [OF s(2) N, of old payload icon True]
    by (simp add: marker_lines_def old data
          img2py_appends_record(2) [OF assms(1,2,6) codec old])
qed

theorem C7_scaffolding_not_written_again_witness:
  "convert_and_encode failing_codec ''/tmp/t'' ''logo.png'' None scaffolded_world
     = (Inr (Some (encode_payload ''PNG bytes'')), scaffolded_world)
   \<and> ''out.py'' \<noteq> ''-''
   \<and> files scaffolded_world ''out.py'' = Some (catalog_initializer @ index_initializer)
   \<and> decode scaffolded_world (catalog_initializer @ index_initializer)
       = Some (catalog_initializer @ index_initializer)
   \<and> catalog_initializer \<in> set (readlines (catalog_initializer @ index_initializer))
   \<and> replace_non_alphanumeric_with_underscore (logical_name ''logo.png'' ''logo'') = Inr ''logo''
   \<and> text_codec scaffolded_world
   \<and> LF \<notin> set (logical_name ''logo.png'' ''logo'')
   \<and> CR \<notin> set (logical_name ''logo.png'' ''logo'')
   \<and> marker_lines scaffolded_world ''out.py'' = Some 1
   \<and> files (snd (img2py failing_codec ''/tmp/t'' ''logo.png'' ''out.py'' True None ''logo''
                   False True False None scaffolded_world)) ''out.py''
       = Some (catalog_initializer @ index_initializer @ separator_line @
               ''logo = PyEmbeddedImage('' @ [LF] @ encode_payload ''PNG bytes'' @ [LF] @
               index_append ''logo'' @ catalog_registration ''logo'' ''logo'' @ [LF])
   \<and> marker_lines
         (snd (img2py failing_codec ''/tmp/t'' ''logo.png'' ''out.py'' True None ''logo''
                 False True False None scaffolded_world)) ''out.py''
       = Some 1"
proof -
  have src: "files example_world ''logo.png'' = Some ''PNG bytes''"
    by (simp add: example_world_def)
  have conv: "convert_and_encode failing_codec ''/tmp/t'' ''logo.png'' None scaffolded_world
                = (Inr (Some (encode_payload ''PNG bytes'')), scaffolded_world)"
    unfolding scaffolded_world_def
    using example_world_fast_path [OF src example_extensions(1), of failing_codec
        "Some (catalog_initializer @ index_initializer)"]
    by simp
  have target: "''out.py'' \<noteq> ''-''"
    by simp
  have readable: "decode scaffolded_world (catalog_initializer @ index_initializer)
                    = Some (catalog_initializer @ index_initializer)"
    by (simp add: scaffolded_world_env)
  have lines: "readlines (catalog_initializer @ index_initializer)
                 = [catalog_initializer, ''index = []'' @ [LF], [LF]]"
    by code_simp
  have marker: "catalog_initializer \<in> set (readlines (catalog_initializer @ index_initializer))"
    unfolding lines by simp
  have "count_list (readlines (catalog_initializer @ index_initializer)) catalog_initializer = 1"
    by code_simp
  then have count: "marker_lines scaffolded_world ''out.py'' = Some 1"
    by (simp add: marker_lines_def artifact_text_def scaffolded_world_env)
  have name: "replace_non_alphanumeric_with_underscore (logical_name ''logo.png'' ''logo'')
                = Inr ''logo''"
    and N: "LF \<notin> set (logical_name ''logo.png'' ''logo'')"
      "CR \<notin> set (logical_name ''logo.png'' ''logo'')"
    by (simp_all add: logical_name_def example_names LF_def CR_def)
  have codec: "text_codec scaffolded_world"
    unfolding scaffolded_world_def by (rule example_world_codec)
  show ?thesis
    using C7_scaffolding_not_written_again [OF conv target scaffolded_world_env(1) readable
        marker name, of False False None] conv readable marker name codec N count
    by (simp add: scaffolded_world_env written_def record_writes_def assignment_def
          effective_compatible_def logical_name_def)
qed

subsection \<open>A name that is already known\<close>

lemma greedy_group_shape:
  "greedy_group s = Some g \<Longrightarrow> g \<noteq> [] \<and> LF \<notin> set g \<and> set g \<subseteq> set s"
proof (induction s arbitrary: g)
  case Nil
  then show ?case by simp
next
  case (Cons c cs)
  show ?case
  proof (cases "greedy_group cs")
    case None
    with Cons.prems show ?thesis
      by (auto split: if_splits)
  next
    case (Some g')
    with Cons.prems have g: "g = c # g'" and c: "c \<noteq> LF"
      by (auto split: if_splits)
    from Cons.IH [OF Some] show ?thesis
      using c by (auto simp: g)
  qed
qed

lemma indexPattern_shape:
  assumes "indexPattern_match line = Some g"
  shows "g \<noteq> []" and "LF \<notin> set g" and "set g \<subseteq> set line"
proof -
  let ?s = "dropWhile isspace line"
  have g: "greedy_group (drop 14 ?s) = Some g"
    using assms by (simp add: indexPattern_match_def Let_def split: if_splits)
  note shape = greedy_group_shape [OF g]
  show "g \<noteq> []" and "LF \<notin> set g"
    using shape by simp_all
  have "set (drop 14 ?s) \<subseteq> set line"
    using set_drop_subset [of 14 ?s] set_dropWhileD [of _ isspace line] by blast
  then show "set g \<subseteq> set line"
    using shape by blast
qed

lemma universal_newlines_no_CR: "CR \<notin> set (universal_newlines s)"
  by (induction s rule: universal_newlines.induct) (auto simp: LF_def CR_def)

lemma text_lines_set: "l \<in> set (text_lines s) \<Longrightarrow> set l \<subseteq> set s"
proof (induction s arbitrary: l)
  case Nil
  then show ?case by simp
next
  case (Cons c cs)
  show ?case
  proof (cases "c = LF")
    case True
    with Cons show ?thesis by auto
  next
    case False
    show ?thesis
    proof (cases "text_lines cs")
      case Nil
      with Cons.prems False show ?thesis by auto
    next
      case (Cons l' ls)
      with Cons.prems False have "l = c # l' \<or> l \<in> set ls"
        by auto
      then show ?thesis
        using Cons.IH [of l'] Cons.IH [of l] Cons by auto
    qed
  qed
qed

lemma scanned_name_shape:
  assumes "N \<in> set (snd (scan_artifact old))"
  shows "N \<noteq> []" and "LF \<notin> set N" and "CR \<notin> set N"
proof -
  obtain line where line: "line \<in> set (readlines old)" and m: "indexPattern_match line = Some N"
    using assms by (auto simp: scan_artifact_eq List.map_filter_def)
  note shape = indexPattern_shape [OF m]
  show "N \<noteq> []" and "LF \<notin> set N"
    using shape by simp_all
  have "set line \<subseteq> set (universal_newlines old)"
    using line by (simp add: readlines_def text_lines_set)
  then show "CR \<notin> set N"
    using shape(3) universal_newlines_no_CR [of old] by blast
qed

lemma example_artifact_run:
  assumes "replace_non_alphanumeric_with_underscore imgName = Inr varName" and "imgName \<noteq> []"
  shows "img2py failing_codec ''/tmp/t'' ''logo.png'' ''out.py'' True None imgName False True
           False None (example_world\<lparr>files := (files example_world)(''out.py'' \<mapsto> art)\<rparr>)
         = (None,
            example_world
            \<lparr>files := (files example_world)(''out.py'' \<mapsto>
                 art @
                 written (\<lambda>s. s)
                   ((if fst (scan_artifact art) then scaffolding_writes else []) @
                    separator_line #
                    record_writes varName imgName (encode_payload ''PNG bytes'') False True False)),
              stdout :=
                (if imgName \<in> set (snd (scan_artifact art))
                 then duplicate_warning imgName else []) @
                summary_line ''logo.png'' imgName ''out.py'' None @ [LF]\<rparr>)"
proof -
  let ?w = "example_world\<lparr>files := (files example_world)(''out.py'' \<mapsto> art)\<rparr>"
  have src: "files example_world ''logo.png'' = Some ''PNG bytes''"
    by (simp add: example_world_def)
  have conv: "convert_and_encode failing_codec ''/tmp/t'' ''logo.png'' None ?w
                = (Inr (Some (encode_payload ''PNG bytes'')), ?w)"
    using example_world_fast_path [OF src example_extensions(1), of failing_codec "Some art"]
    by simp
  have name: "replace_non_alphanumeric_with_underscore (logical_name ''logo.png'' imgName)
                = Inr varName"
    using assms by (simp add: logical_name_def)
  have old: "files ?w ''out.py'' = Some art" and readable: "decode ?w art = Some art"
    by (simp_all add: example_world_env)
  show ?thesis
    using assms(2)
    by (simp add: img2py_append_file [OF conv _ name old readable] effective_compatible_def
          logical_name_def example_world_env)
qed

text \<open>
  C8, as stated, has the artifact end up with two index statements and two registrations
  for the name. That is so when the name was registered once. In an artifact that holds it
  twice, the warning is printed, the record is appended, and the name is there three times.
\<close>

theorem C8_third_registration:
  "known_names (example_world\<lparr>files := (files example_world)(''out.py'' \<mapsto> registered_twice)\<rparr>)
     ''out.py'' = Some [''a'', ''a'']
   \<and> img2py failing_codec ''/tmp/t'' ''logo.png'' ''out.py'' True None ''a'' False True False
        None (example_world\<lparr>files := (files example_world)(''out.py'' \<mapsto> registered_twice)\<rparr>)
       = (None,
          example_world
          \<lparr>files := (files example_world)(''out.py'' \<mapsto>
               registered_twice @ separator_line @
               ''a = PyEmbeddedImage('' @ [LF] @ encode_payload ''PNG bytes'' @ [LF] @
               index_append ''a'' @ catalog_registration ''a'' ''a'' @ [LF]),
            stdout := duplicate_warning ''a'' @
                      ''Embedded logo.png using '' @ [CHR 0x22] @ ''a'' @ [CHR 0x22] @
                      '' into out.py'' @ [LF]\<rparr>)
   \<and> readlines
         (registered_twice @ separator_line @
          ''a = PyEmbeddedImage('' @ [LF] @ encode_payload ''PNG bytes'' @ [LF] @
          index_append ''a'' @ catalog_registration ''a'' ''a'' @ [LF])
       = [catalog_initializer, ''index = []'' @ [LF], [LF],
          index_append ''a'', catalog_registration ''a'' ''a'',
          index_append ''a'', catalog_registration ''a'' ''a'',
          separator_line, ''a = PyEmbeddedImage('' @ [LF],
          ''    b'' @ [sq] @ ''UE5HIGJ5dGVz'' @ [sq] @ '')'' @ [LF],
          index_append ''a'', catalog_registration ''a'' ''a'', [LF]]"
proof -
  have scan: "scan_artifact registered_twice = (False, [''a'', ''a''])"
    by code_simp
  have lines: "readlines
         (registered_twice @ separator_line @
          ''a = PyEmbeddedImage('' @ [LF] @ encode_payload ''PNG bytes'' @ [LF] @
          index_append ''a'' @ catalog_registration ''a'' ''a'' @ [LF])
       = [catalog_initializer, ''index = []'' @ [LF], [LF],
          index_append ''a'', catalog_registration ''a'' ''a'',
          index_append ''a'', catalog_registration ''a'' ''a'',
          separator_line, ''a = PyEmbeddedImage('' @ [LF],
          ''    b'' @ [sq] @ ''UE5HIGJ5dGVz'' @ [sq] @ '')'' @ [LF],
          index_append ''a'', catalog_registration ''a'' ''a'', [LF]]"
    by code_simp
  have ne: "''a'' \<noteq> []"
    by simp
  show ?thesis
    using lines
    by (simp add: example_artifact_run [OF example_names(1) ne] scan known_names_def
          artifact_text_def example_world_env written_def record_writes_def assignment_def
          summary_line_def)
qed

text \<open>
  C8, amended. In the emitter: when the name is in \<^verbatim>\<open>old_index\<close> and the catalog is asked
  for, \<^verbatim>\<open>_write_image\<close> prints the two lines of the warning, writes the record all the same,
  index statement and registration included, and returns with the name added to the list.
  In a run: when the logical name is among the known names of the artifact, \<^verbatim>\<open>img2py\<close>
  returns normally, the warning is printed before the closing message, the record is
  appended, and a later scan finds the known names of before with the name once more at the
  end: twice in all when it was there once.
\<close>

theorem C8_duplicate_is_registered_again:
  assumes "convert_and_encode codec tfname image_file maskClr w = (Inr (Some data), w1)"
    and "python_file \<noteq> ''-''"
    and "text_codec w1"
    and "files w1 python_file = Some bytes"
    and "decode w1 bytes = Some old"
    and "logical_name image_file imgName \<in> set (snd (scan_artifact old))"
  shows "(name \<in> set old_index \<longrightarrow>
            replace_non_alphanumeric_with_underscore name = Inr var \<longrightarrow>
            files w0 p = Some content \<longrightarrow>
            write_image (File p) name payload append' icon True compatible old_index w0
            = (Inr (old_index @ [name]),
               w0\<lparr>files := (files w0)(p \<mapsto>
                      content @
                      written (encode w0)
                        (separator_line #
                         (if append' then [] else prologue_writes (argv0 w0) True) @
                         record_writes var name payload icon True compatible)),
                   stdout := stdout w0 @ duplicate_warning name\<rparr>))
         \<and> (\<exists>varName.
              replace_non_alphanumeric_with_underscore (logical_name image_file imgName)
                = Inr varName
              \<and> img2py codec tfname image_file python_file True maskClr imgName icon True
                   functionCompatible functionCompatibile w
                 = (None,
                    w1\<lparr>files := (files w1)(python_file \<mapsto>
                           bytes @
                           written (encode w1)
                             ((if catalog_initializer \<notin> set (readlines old)
                               then scaffolding_writes else []) @
                              separator_line #
                              record_writes varName (logical_name image_file imgName) data icon
                                True (effective_compatible functionCompatible functionCompatibile))),
                        stdout := stdout w1 @
                           (if imgName = []
                            then name_warning (logical_name image_file imgName) @ [LF] else []) @
                           duplicate_warning (logical_name image_file imgName) @
                           summary_line image_file (logical_name image_file imgName) python_file
                             maskClr @
                           [LF]\<rparr>))
         \<and> known_names
               (snd (img2py codec tfname image_file python_file True maskClr imgName icon True
                       functionCompatible functionCompatibile w)) python_file
             = Some (snd (scan_artifact old) @ [logical_name image_file imgName])"
proof (intro conjI impI)
  assume "name \<in> set old_index"
    and "replace_non_alphanumeric_with_underscore name = Inr var"
    and "files w0 p = Some content"
  then show "write_image (File p) name payload append' icon True compatible old_index w0
            = (Inr (old_index @ [name]),
               w0\<lparr>files := (files w0)(p \<mapsto>
                      content @
                      written (encode w0)
                        (separator_line #
                         (if append' then [] else prologue_writes (argv0 w0) True) @
                         record_writes var name payload icon True compatible)),
                   stdout := stdout w0 @ duplicate_warning name\<rparr>)"
    by (simp add: write_image_file)
next
  note N = scanned_name_shape [OF assms(6)]
  obtain varName where name:
    "replace_non_alphanumeric_with_underscore (logical_name image_file imgName) = Inr varName"
    using sanitized_exists [OF N(1)] by blast
  have "img2py codec tfname image_file python_file True maskClr imgName icon True
          functionCompatible functionCompatibile w
        = (None,
           w1\<lparr>files := (files w1)(python_file \<mapsto>
                  bytes @
                  written (encode w1)
                    ((if catalog_initializer \<notin> set (readlines old)
                      then scaffolding_writes else []) @
                     separator_line #
                     record_writes varName (logical_name image_file imgName) data icon
                       True (effective_compatible functionCompatible functionCompatibile))),
               stdout := stdout w1 @
                  (if imgName = []
                   then name_warning (logical_name image_file imgName) @ [LF] else []) @
                  duplicate_warning (logical_name image_file imgName) @
                  summary_line image_file (logical_name image_file imgName) python_file
                    maskClr @
                  [LF]\<rparr>)"
    using assms(6)
    by (simp add: img2py_append_file [OF assms(1,2) name assms(4), of True old, OF assms(5)]
          scan_artifact_eq)
  with name show "\<exists>varName.
              replace_non_alphanumeric_with_underscore (logical_name image_file imgName)
                = Inr varName
              \<and> img2py codec tfname image_file python_file True maskClr imgName icon True
                   functionCompatible functionCompatibile w
                 = (None,
                    w1\<lparr>files := (files w1)(python_file \<mapsto>
                           bytes @
                           written (encode w1)
                             ((if catalog_initializer \<notin> set (readlines old)
                               then scaffolding_writes else []) @
                              separator_line #
                              record_writes varName (logical_name image_file imgName) data icon
                                True (effective_compatible functionCompatible functionCompatibile))),
                        stdout := stdout w1 @
                           (if imgName = []
                            then name_warning (logical_name image_file imgName) @ [LF] else []) @
                           duplicate_warning (logical_name image_file imgName) @
                           summary_line image_file (logical_name image_file imgName) python_file
                             maskClr @
                           [LF]\<rparr>)"
    by blast
next
  note N = scanned_name_shape [OF assms(6)]
  have names: "known_names w1 python_file = Some (snd (scan_artifact old))"
    using assms(4,5) by (simp add: known_names_def artifact_text_def)
  show "known_names
          (snd (img2py codec tfname image_file python_file True maskClr imgName icon True
                  functionCompatible functionCompatibile w)) python_file
        = Some (snd (scan_artifact old) @ [logical_name image_file imgName])"
    using img2py_appends_name [OF assms(1,2,3) names N, of icon True functionCompatible
        functionCompatibile]
    by simp
qed

theorem C8_duplicate_is_registered_again_witness:
  "convert_and_encode failing_codec ''/tmp/t'' ''logo.png'' None
       (example_world\<lparr>files := (files example_world)(''out.py'' \<mapsto> registered_once)\<rparr>)
     = (Inr (Some (encode_payload ''PNG bytes'')),
        example_world\<lparr>files := (files example_world)(''out.py'' \<mapsto> registered_once)\<rparr>)
   \<and> ''out.py'' \<noteq> ''-''
   \<and> text_codec (example_world\<lparr>files := (files example_world)(''out.py'' \<mapsto> registered_once)\<rparr>)
   \<and> files (example_world\<lparr>files := (files example_world)(''out.py'' \<mapsto> registered_once)\<rparr>)
         ''out.py'' = Some registered_once
   \<and> decode (example_world\<lparr>files := (files example_world)(''out.py'' \<mapsto> registered_once)\<rparr>)
         registered_once = Some registered_once
   \<and> scan_artifact registered_once = (False, [''a''])
   \<and> logical_name ''logo.png'' ''a'' \<in> set (snd (scan_artifact registered_once))
   \<and> ''a'' \<in> set [''a'']
   \<and> replace_non_alphanumeric_with_underscore ''a'' = Inr ''a''
   \<and> write_image (File ''out.py'') ''a'' [] True False True False [''a'']
         (example_world\<lparr>files := (files example_world)(''out.py'' \<mapsto> registered_once)\<rparr>)
       = (Inr [''a'', ''a''],
          example_world
          \<lparr>files := (files example_world)(''out.py'' \<mapsto>
               registered_once @ separator_line @ ''a = PyEmbeddedImage('' @ [LF, LF] @
               index_append ''a'' @ catalog_registration ''a'' ''a'' @ [LF]),
           stdout := duplicate_warning ''a''\<rparr>)
   \<and> img2py failing_codec ''/tmp/t'' ''logo.png'' ''out.py'' True None ''a'' False True False
        None (example_world\<lparr>files := (files example_world)(''out.py'' \<mapsto> registered_once)\<rparr>)
       = (None,
          example_world
          \<lparr>files := (files example_world)(''out.py'' \<mapsto>
               registered_once @ separator_line @
               ''a = PyEmbeddedImage('' @ [LF] @ encode_payload ''PNG bytes'' @ [LF] @
               index_append ''a'' @ catalog_registration ''a'' ''a'' @ [LF]),
            stdout := duplicate_warning ''a'' @
                      ''Embedded logo.png using '' @ [CHR 0x22] @ ''a'' @ [CHR 0x22] @
                      '' into out.py'' @ [LF]\<rparr>)
   \<and> known_names
         (snd (img2py failing_codec ''/tmp/t'' ''logo.png'' ''out.py'' True None ''a'' False
                 True False None
                 (example_world\<lparr>files := (files example_world)(''out.py'' \<mapsto> registered_once)\<rparr>)))
         ''out.py''
       = Some [''a'', ''a'']"
proof -
  let ?w = "example_world\<lparr>files := (files example_world)(''out.py'' \<mapsto> registered_once)\<rparr>"
  have src: "files example_world ''logo.png'' = Some ''PNG bytes''"
    by (simp add: example_world_def)
  have conv: "convert_and_encode failing_codec ''/tmp/t'' ''logo.png'' None ?w
                = (Inr (Some (encode_payload ''PNG bytes'')), ?w)"
    using example_world_fast_path [OF src example_extensions(1), of failing_codec
        "Some registered_once"]
    by simp
  have target: "''out.py'' \<noteq> ''-''"
    by simp
  have codec: "text_codec ?w"
    by (rule example_world_codec)
  have old: "files ?w ''out.py'' = Some registered_once"
    and readable: "decode ?w registered_once = Some registered_once"
    by (simp_all add: example_world_env)
  have scan: "scan_artifact registered_once = (False, [''a''])"
    by code_simp
  have marker: "catalog_initializer \<in> set (readlines registered_once)"
    using scan by (simp add: scan_artifact_eq)
  have known: "logical_name ''logo.png'' ''a'' \<in> set (snd (scan_artifact registered_once))"
    by (simp add: scan logical_name_def)
  have member: "''a'' \<in> set [''a'']"
    by simp
  note inst = C8_duplicate_is_registered_again [OF conv target codec old readable known,
        where name = "''a''" and old_index = "[''a'']" and var = "''a''" and ?w0.0 = ?w
          and p = "''out.py''" and content = registered_once and payload = "[]"
          and append' = True and icon = False and compatible = False
          and functionCompatible = False and functionCompatibile = None]
  have emit: "write_image (File ''out.py'') ''a'' [] True False True False [''a''] ?w
       = (Inr [''a'', ''a''],
          example_world
          \<lparr>files := (files example_world)(''out.py'' \<mapsto>
               registered_once @ separator_line @ ''a = PyEmbeddedImage('' @ [LF, LF] @
               index_append ''a'' @ catalog_registration ''a'' ''a'' @ [LF]),
           stdout := duplicate_warning ''a''\<rparr>)"
    using inst [THEN conjunct1] example_names(1)
    by (simp add: example_world_env written_def record_writes_def assignment_def)
  have run: "img2py failing_codec ''/tmp/t'' ''logo.png'' ''out.py'' True None ''a'' False True
        False None ?w
       = (None,
          example_world
          \<lparr>files := (files example_world)(''out.py'' \<mapsto>
               registered_once @ separator_line @
               ''a = PyEmbeddedImage('' @ [LF] @ encode_payload ''PNG bytes'' @ [LF] @
               index_append ''a'' @ catalog_registration ''a'' ''a'' @ [LF]),
            stdout := duplicate_warning ''a'' @
                      ''Embedded logo.png using '' @ [CHR 0x22] @ ''a'' @ [CHR 0x22] @
                      '' into out.py'' @ [LF]\<rparr>)"
    using inst [THEN conjunct2, THEN conjunct1] example_names(1) marker
    by (simp add: example_world_env written_def record_writes_def assignment_def
          effective_compatible_def logical_name_def summary_line_def)
  have names: "known_names
         (snd (img2py failing_codec ''/tmp/t'' ''logo.png'' ''out.py'' True None ''a'' False
                 True False None ?w)) ''out.py''
       = Some [''a'', ''a'']"
    using inst [THEN conjunct2, THEN conjunct2] by (simp add: scan logical_name_def)
  show ?thesis
    using conv codec old readable scan known example_names(1) emit run names
    by (intro conjI) simp_all
qed

subsection \<open>The artifact that does not exist\<close>

lemma convert_frame:
  assumes "convert codec image_file maskClr None tfname outType outExt w = (r, w')"
  shows "encode w' = encode w" and "decode w' = decode w"
    and "p \<noteq> tfname \<Longrightarrow> p \<noteq> image_file \<Longrightarrow> files w' p = files w p"
  using assms
  by (auto simp: convert_def img2img_convert_def newname_of_def Let_def
        split: if_splits option.splits sum.splits codec_outcome.splits)

lemma convert_and_encode_frame:
  assumes "convert_and_encode codec tfname image_file maskClr w = (r, w1)"
  shows "encode w1 = encode w" and "decode w1 = decode w"
    and "p \<noteq> tfname \<Longrightarrow> p \<noteq> image_file \<Longrightarrow> files w1 p = files w p"
proof -
  let ?w0 = "w\<lparr>files := (files w)(tfname \<mapsto> [])\<rparr>"
  obtain r' w' where conv:
    "convert codec image_file maskClr None tfname BITMAP_TYPE_PNG ''.png'' ?w0 = (r', w')"
    by (cases "convert codec image_file maskClr None tfname BITMAP_TYPE_PNG ''.png'' ?w0")
  note fr = convert_frame [OF conv]
  show "encode w1 = encode w"
    using assms fr(1)
    by (auto simp: convert_and_encode_def conv py_print_def
          split: sum.splits if_splits option.splits)
  show "decode w1 = decode w"
    using assms fr(2)
    by (auto simp: convert_and_encode_def conv py_print_def
          split: sum.splits if_splits option.splits)
  show "p \<noteq> tfname \<Longrightarrow> p \<noteq> image_file \<Longrightarrow> files w1 p = files w p"
    using assms fr(3) [of p]
    by (auto simp: convert_and_encode_def conv py_print_def
          split: sum.splits if_splits option.splits)
qed

lemma text_codec_cong:
  assumes "encode w' = encode w" and "decode w' = decode w"
  shows "text_codec w' = text_codec w"
  using assms by (simp add: text_codec_def)

lemma first_record_text:
  assumes name: "replace_non_alphanumeric_with_underscore N = Inr var"
    and N: "LF \<notin> set N" "CR \<notin> set N"
  shows "count_list (readlines (scaffolding_block @ separator_line @
                       record_statements var N (encode_payload bytes) icon True fc))
           catalog_initializer = 1"
    and "catalog_initializer \<in> set (readlines (scaffolding_block @ separator_line @
                       record_statements var N (encode_payload bytes) icon True fc))"
    and "snd (scan_artifact (scaffolding_block @ separator_line @
                       record_statements var N (encode_payload bytes) icon True fc)) = [N]"
proof -
  note s = sanitized_name [OF name]
  show one: "count_list (readlines (scaffolding_block @ separator_line @
                       record_statements var N (encode_payload bytes) icon True fc))
           catalog_initializer = 1"
    by (rule scaffold_marker_count [OF s(2) N])
  then show "catalog_initializer \<in> set (readlines (scaffolding_block @ separator_line @
                       record_statements var N (encode_payload bytes) icon True fc))"
    using count_pos_member [of _ catalog_initializer 0] by simp
  have "snd (scan_artifact []) = []"
    by (simp add: scan_artifact_def readlines_def)
  then show "snd (scan_artifact (scaffolding_block @ separator_line @
                       record_statements var N (encode_payload bytes) icon True fc)) = [N]"
    using appended_names [OF name N, of "[]" True bytes icon True fc] by simp
qed

text \<open>
  C2, as stated, has a run in append mode with the catalog create the artifact when it does
  not exist. \<^verbatim>\<open>img2py\<close> opens the artifact for reading before it opens it for appending, and
  \<^verbatim>\<open>open(python_file, "r")\<close> raises FileNotFoundError: the run ends there, nothing is
  created and nothing is written.
\<close>

theorem C2_missing_artifact_raises:
  "files example_world ''out.py'' = None
   \<and> img2py failing_codec ''/tmp/t'' ''logo.png'' ''out.py'' True None ''a'' False True
        False None example_world = (Some FileNotFoundError, example_world)"
proof -
  have src: "files example_world ''logo.png'' = Some ''PNG bytes''"
    and missing: "files example_world ''out.py'' = None"
    by (simp_all add: example_world_def)
  have conv: "convert_and_encode failing_codec ''/tmp/t'' ''logo.png'' None example_world
                = (Inr (Some (encode_payload ''PNG bytes'')), example_world)"
    using example_world_fast_path [OF src example_extensions(1), of failing_codec None]
    by (simp add: example_world_def)
  show ?thesis
    using missing by (simp add: img2py_missing_file [OF conv _ missing])
qed

text \<open>
  C2, amended. First, the artifact that does not exist: when the conversion phase has given
  a payload and the artifact is not there, \<^verbatim>\<open>img2py\<close> in append mode with the catalog ends
  with FileNotFoundError and the world is as the conversion phase left it (no artifact, and
  nothing printed). Then the scenario, on an artifact that exists and is empty: a first run
  with the name \<^verbatim>\<open>a\<close>, and a second run with the name \<^verbatim>\<open>b\<close> from the world the first one
  left, whose conversion phase also gives a payload and whose image and temporary file are
  not the artifact. Both runs return normally, and the artifact is then the banner and the
  scaffolding, the record of \<^verbatim>\<open>a\<close> and the record of \<^verbatim>\<open>b\<close>: it has one marker line, and its
  known names are \<^verbatim>\<open>a\<close> and \<^verbatim>\<open>b\<close> in this order.
\<close>

theorem C2_missing_artifact_is_an_error:
  assumes "convert_and_encode codec tfname image_file maskClr w = (Inr (Some data), w1)"
    and "python_file \<noteq> ''-''"
  shows "(files w1 python_file = None \<longrightarrow>
            img2py codec tfname image_file python_file True maskClr imgName icon True
              functionCompatible functionCompatibile w
            = (Some FileNotFoundError, w1))
         \<and> (files w1 python_file = Some [] \<longrightarrow>
            text_codec w1 \<longrightarrow>
            convert_and_encode codec' tfname' image_file' maskClr'
              (snd (img2py codec tfname image_file python_file True maskClr ''a'' icon True
                      functionCompatible functionCompatibile w))
            = (Inr (Some data'), w2) \<longrightarrow>
            python_file \<noteq> tfname' \<longrightarrow>
            python_file \<noteq> image_file' \<longrightarrow>
            fst (img2py codec tfname image_file python_file True maskClr ''a'' icon True
                   functionCompatible functionCompatibile w) = None
            \<and> fst (img2py codec' tfname' image_file' python_file True maskClr' ''b'' icon' True
                     functionCompatible' functionCompatibile'
                     (snd (img2py codec tfname image_file python_file True maskClr ''a'' icon
                             True functionCompatible functionCompatibile w))) = None
            \<and> artifact_text
                 (snd (img2py codec' tfname' image_file' python_file True maskClr' ''b'' icon'
                         True functionCompatible' functionCompatibile'
                         (snd (img2py codec tfname image_file python_file True maskClr ''a''
                                 icon True functionCompatible functionCompatibile w))))
                 python_file
               = Some (scaffolding_block @
                       separator_line @
                       record_statements ''a'' ''a'' data icon True
                         (effective_compatible functionCompatible functionCompatibile) @
                       separator_line @
                       record_statements ''b'' ''b'' data' icon' True
                         (effective_compatible functionCompatible' functionCompatibile'))
            \<and> marker_lines
                 (snd (img2py codec' tfname' image_file' python_file True maskClr' ''b'' icon'
                         True functionCompatible' functionCompatibile'
                         (snd (img2py codec tfname image_file python_file True maskClr ''a''
                                 icon True functionCompatible functionCompatibile w))))
                 python_file
               = Some 1
            \<and> known_names
                 (snd (img2py codec' tfname' image_file' python_file True maskClr' ''b'' icon'
                         True functionCompatible' functionCompatibile'
                         (snd (img2py codec tfname image_file python_file True maskClr ''a''
                                 icon True functionCompatible functionCompatibile w))))
                 python_file
               = Some [''a'', ''b''])"
proof (intro conjI impI)
  assume "files w1 python_file = None"
  then show "img2py codec tfname image_file python_file True maskClr imgName icon True
               functionCompatible functionCompatibile w
             = (Some FileNotFoundError, w1)"
    by (rule img2py_missing_file [OF assms])
next
  let ?run1 = "img2py codec tfname image_file python_file True maskClr ''a'' icon True
                 functionCompatible functionCompatibile w"
  let ?run2 = "img2py codec' tfname' image_file' python_file True maskClr' ''b'' icon' True
                 functionCompatible' functionCompatibile' (snd ?run1)"
  let ?fc = "effective_compatible functionCompatible functionCompatibile"
  let ?fc' = "effective_compatible functionCompatible' functionCompatibile'"
  assume empty: "files w1 python_file = Some []"
    and codec: "text_codec w1"
    and conv2: "convert_and_encode codec' tfname' image_file' maskClr' (snd ?run1)
                  = (Inr (Some data'), w2)"
    and apart: "python_file \<noteq> tfname'" "python_file \<noteq> image_file'"
  obtain b1 where d1: "data = encode_payload b1"
    using convert_and_encode_payload [OF assms(1)] by blast
  obtain b2 where d2: "data' = encode_payload b2"
    using convert_and_encode_payload [OF conv2] by blast
  have name_a: "replace_non_alphanumeric_with_underscore (logical_name image_file ''a'') = Inr ''a''"
    and name_b: "replace_non_alphanumeric_with_underscore (logical_name image_file' ''b'') = Inr ''b''"
    by (simp_all add: logical_name_def example_names)
  have plain: "LF \<notin> set ''a''" "CR \<notin> set ''a''" "LF \<notin> set ''b''" "CR \<notin> set ''b''"
    by (simp_all add: LF_def CR_def)
  have readable: "decode w1 [] = Some []"
    using codec by (simp add: text_codec_def)
  have text0: "artifact_text w1 python_file = Some []"
    using empty readable by (simp add: artifact_text_def)
  let ?T1 = "scaffolding_block @ separator_line @ record_statements ''a'' ''a'' data icon True ?fc"
  note first = first_record_text [OF example_names(1) plain(1,2), of b1 icon ?fc]
  have run1: "snd ?run1
              = w1\<lparr>files := (files w1)(python_file \<mapsto>
                       [] @ written (encode w1)
                         ((if True \<and> fst (scan_artifact []) then scaffolding_writes else []) @
                          separator_line #
                          record_writes ''a'' (logical_name image_file ''a'') data icon True ?fc)),
                     stdout := stdout w1 @
                       (if ''a'' = [] then name_warning (logical_name image_file ''a'') @ [LF]
                        else []) @
                       (if True \<and> logical_name image_file ''a'' \<in> set (snd (scan_artifact []))
                        then duplicate_warning (logical_name image_file ''a'') else []) @
                       summary_line image_file (logical_name image_file ''a'') python_file maskClr @
                       [LF]\<rparr>"
    by (simp add: img2py_append_file [OF assms(1,2) name_a empty, of True "[]", OF readable])
  show ok1: "fst ?run1 = None"
    by (rule img2py_appends_record(1) [OF assms(1,2) name_a codec text0])
  have text1: "artifact_text (snd ?run1) python_file = Some ?T1"
    using img2py_appends_record(2) [OF assms(1,2) name_a codec text0, of icon True
        functionCompatible functionCompatibile]
    by (simp add: readlines_def logical_name_def)
  have env1: "encode (snd ?run1) = encode w1" "decode (snd ?run1) = decode w1"
    unfolding run1 by simp_all
  note fr = convert_and_encode_frame [OF conv2]
  have codec2: "text_codec w2"
    using codec text_codec_cong [of w2 w1] fr(1,2) env1 by simp
  have "artifact_text w2 python_file = artifact_text (snd ?run1) python_file"
    unfolding artifact_text_def fr(2) fr(3) [OF apart] by (rule refl)
  then have text2: "artifact_text w2 python_file = Some ?T1"
    by (simp only: text1)
  show "fst ?run2 = None"
    by (rule img2py_appends_record(1) [OF conv2 assms(2) name_b codec2 text2])
  have text3: "artifact_text (snd ?run2) python_file
               = Some (?T1 @ separator_line @ record_statements ''b'' ''b'' data' icon' True ?fc')"
    using img2py_appends_record(2) [OF conv2 assms(2) name_b codec2 text2, of icon' True
        functionCompatible' functionCompatibile'] first(2)
    by (simp add: d1 logical_name_def)
  then show "artifact_text (snd ?run2) python_file
             = Some (scaffolding_block @
                     separator_line @
                     record_statements ''a'' ''a'' data icon True ?fc @
                     separator_line @
                     record_statements ''b'' ''b'' data' icon' True ?fc')"
    by simp
  note s = sanitized_name [OF example_names(2)]
  show "marker_lines (snd ?run2) python_file = Some 1"
    using artifact_marker_count_append [OF s(2) plain(3,4), of ?T1 b2 icon' True ?fc'] first(1)
    by (simp add: marker_lines_def text3 d1 d2)
  show "known_names (snd ?run2) python_file = Some [''a'', ''b'']"
    using appended_names [OF example_names(2) plain(3,4), of ?T1 False b2 icon' True ?fc']
      first(3)
    by (simp add: known_names_def text3 d1 d2)
qed

lemma example_world_later_run:
  "convert_and_encode codec ''/tmp/t'' ''logo.png'' None
     (example_world\<lparr>files := (files example_world)(''out.py'' \<mapsto> artifact), stdout := out\<rparr>)
   = (Inr (Some (encode_payload ''PNG bytes'')),
      example_world\<lparr>files := (files example_world)(''out.py'' \<mapsto> artifact), stdout := out\<rparr>)"
  using example_extensions(1)
  by (intro fast_path_payload) (simp_all add: example_world_def)

theorem C2_missing_artifact_is_an_error_witness:
  "convert_and_encode failing_codec ''/tmp/t'' ''logo.png'' None example_world
     = (Inr (Some (encode_payload ''PNG bytes'')), example_world)
   \<and> ''out.py'' \<noteq> ''-''
   \<and> files example_world ''out.py'' = None
   \<and> img2py failing_codec ''/tmp/t'' ''logo.png'' ''out.py'' True None ''a'' False True False
        None example_world
       = (Some FileNotFoundError, example_world)
   \<and> convert_and_encode failing_codec ''/tmp/t'' ''logo.png'' None empty_artifact_world
       = (Inr (Some (encode_payload ''PNG bytes'')), empty_artifact_world)
   \<and> files empty_artifact_world ''out.py'' = Some []
   \<and> text_codec empty_artifact_world
   \<and> fst (convert_and_encode failing_codec ''/tmp/t'' ''logo.png'' None
            (snd (img2py failing_codec ''/tmp/t'' ''logo.png'' ''out.py'' True None ''a'' False
                    True False None empty_artifact_world)))
       = Inr (Some (encode_payload ''PNG bytes''))
   \<and> ''out.py'' \<noteq> ''/tmp/t'' \<and> ''out.py'' \<noteq> ''logo.png''
   \<and> artifact_text
         (snd (img2py failing_codec ''/tmp/t'' ''logo.png'' ''out.py'' True None ''b'' False
                 True False None
                 (snd (img2py failing_codec ''/tmp/t'' ''logo.png'' ''out.py'' True None ''a''
                         False True False None empty_artifact_world))))
         ''out.py''
       = Some (scaffolding_block @
               separator_line @
               record_statements ''a'' ''a'' (encode_payload ''PNG bytes'') False True False @
               separator_line @
               record_statements ''b'' ''b'' (encode_payload ''PNG bytes'') False True False)
   \<and> marker_lines
         (snd (img2py failing_codec ''/tmp/t'' ''logo.png'' ''out.py'' True None ''b'' False
                 True False None
                 (snd (img2py failing_codec ''/tmp/t'' ''logo.png'' ''out.py'' True None ''a''
                         False True False None empty_artifact_world))))
         ''out.py''
       = Some 1
   \<and> known_names
         (snd (img2py failing_codec ''/tmp/t'' ''logo.png'' ''out.py'' True None ''b'' False
                 True False None
                 (snd (img2py failing_codec ''/tmp/t'' ''logo.png'' ''out.py'' True None ''a''
                         False True False None empty_artifact_world))))
         ''out.py''
       = Some [''a'', ''b'']"
proof -
  let ?run1 = "img2py failing_codec ''/tmp/t'' ''logo.png'' ''out.py'' True None ''a'' False
                 True False None empty_artifact_world"
  have src: "files example_world ''logo.png'' = Some ''PNG bytes''"
    and missing: "files example_world ''out.py'' = None"
    by (simp_all add: example_world_def)
  have conv0: "convert_and_encode failing_codec ''/tmp/t'' ''logo.png'' None example_world
                 = (Inr (Some (encode_payload ''PNG bytes'')), example_world)"
    using example_world_fast_path [OF src example_extensions(1), of failing_codec None]
    by (simp add: example_world_def)
  have conv1: "convert_and_encode failing_codec ''/tmp/t'' ''logo.png'' None empty_artifact_world
                 = (Inr (Some (encode_payload ''PNG bytes'')), empty_artifact_world)"
    unfolding empty_artifact_world_def
    using example_world_fast_path [OF src example_extensions(1), of failing_codec "Some []"]
    by simp
  have target: "''out.py'' \<noteq> ''-''"
    by simp
  have empty: "files empty_artifact_world ''out.py'' = Some []"
    by (simp add: empty_artifact_world_def)
  have codec: "text_codec empty_artifact_world"
    unfolding empty_artifact_world_def by (rule example_world_codec)
  have ne: "''a'' \<noteq> []"
    by simp
  have run1: "snd ?run1
      = example_world
        \<lparr>files := (files example_world)(''out.py'' \<mapsto>
             [] @
             written (\<lambda>s. s)
               ((if fst (scan_artifact []) then scaffolding_writes else []) @
                separator_line #
                record_writes ''a'' ''a'' (encode_payload ''PNG bytes'') False True False)),
          stdout :=
            (if ''a'' \<in> set (snd (scan_artifact [])) then duplicate_warning ''a'' else []) @
            summary_line ''logo.png'' ''a'' ''out.py'' None @ [LF]\<rparr>"
    unfolding empty_artifact_world_def
    by (simp add: example_artifact_run [OF example_names(1) ne, of "[]"])
  have conv2: "convert_and_encode failing_codec ''/tmp/t'' ''logo.png'' None (snd ?run1)
                 = (Inr (Some (encode_payload ''PNG bytes'')), snd ?run1)"
    unfolding run1 by (rule example_world_later_run)
  have apart: "''out.py'' \<noteq> ''/tmp/t''" "''out.py'' \<noteq> ''logo.png''"
    by simp_all
  note missing_case = C2_missing_artifact_is_an_error [OF conv0 target,
      where imgName = "''a''" and icon = False and functionCompatible = False
        and functionCompatibile = None, THEN conjunct1, rule_format, OF missing]
  note scenario = C2_missing_artifact_is_an_error [OF conv1 target,
      where icon = False and functionCompatible = False and functionCompatibile = None
        and icon' = False and functionCompatible' = False and functionCompatibile' = None,
      THEN conjunct2, rule_format, OF empty codec conv2 apart]
  show ?thesis
    using conv0 missing missing_case conv1 empty codec conv2 scenario
    by (simp add: effective_compatible_def)
qed

end
